theory Spec2Isabelle
  imports Complex_Main "HOL-Library.Sublist" "HOL-Library.AList"
begin

section \<open>Strings\<close>

text \<open>
  JavaScript strings are modelled as \<open>string\<close> (lists of 8-bit characters). Model
  identifiers, provider names, e-mail addresses and error messages of the gateway are
  ASCII; \<open>toLowerCase\<close> folds the letters A..Z and leaves every other character alone.
\<close>

definition toLowerChar :: "char \<Rightarrow> char" where
  "toLowerChar c =
     (case map_of (zip ''ABCDEFGHIJKLMNOPQRSTUVWXYZ'' ''abcdefghijklmnopqrstuvwxyz'') c of
        None \<Rightarrow> c
      | Some l \<Rightarrow> l)"

definition toLowerCase :: "string \<Rightarrow> string" where
  "toLowerCase s = map toLowerChar s"

text \<open>\<open>s.startsWith(p)\<close>.\<close>

definition startsWith :: "string \<Rightarrow> string \<Rightarrow> bool" where
  "startsWith s p = prefix p s"

text \<open>\<open>s.includes(p)\<close>: \<open>p\<close> occurs in \<open>s\<close> as a contiguous run of characters.\<close>

fun str_includes :: "string \<Rightarrow> string \<Rightarrow> bool" where
  "str_includes [] p = (p = [])"
| "str_includes (c # cs) p = (prefix p (c # cs) \<or> str_includes cs p)"

text \<open>\<open>s.replace(/^models\//, '')\<close>: one leading \<open>models/\<close> is removed, case-sensitively.\<close>

definition stripModelsPrefix :: "string \<Rightarrow> string" where
  "stripModelsPrefix s = (if prefix ''models/'' s then drop 7 s else s)"

text \<open>\<open>s.split('@')[0]\<close>: the characters before the first \<open>@\<close> (all of \<open>s\<close> without one).\<close>

definition localPart :: "string \<Rightarrow> string" where
  "localPart s = takeWhile (\<lambda>c. c \<noteq> CHR ''@'') s"

text \<open>\<open>x || null\<close> on an optional string: the empty string is falsy.\<close>

definition orNull :: "string option \<Rightarrow> string option" where
  "orNull x = (case x of None \<Rightarrow> None | Some v \<Rightarrow> if v = [] then None else Some v)"

section \<open>Data model\<close>

text \<open>\<open>QuotaData\<close> of \<open>GoogleAPIService.ts\<close>; an object's entries keep insertion order.\<close>

record ModelQuota =
  percentage :: real
  resetTime :: string
  displayName :: "string option"
  maxTokenAllowed :: "real option"
  maxCompletionTokens :: "real option"

record QuotaData =
  models :: "(string \<times> ModelQuota) list"

text \<open>
  Modelled from the spec: the type \<open>CloudAccount\<close> (\<open>types/cloudAccount\<close>) and its
  \<open>token\<close> sub-record are not among the sources; the fields are those of section 3 of
  the specification, which are also the columns that \<open>cloudHandler.ts\<close> reads and
  writes. \<open>status\<close> is the text column (\<open>active\<close>, \<open>refreshing\<close>, \<open>rate_limited\<close>,
  \<open>error\<close>); \<open>id\<close> is written \<open>acc_id\<close>.
\<close>

record TokenInfo =
  access_token :: string
  refresh_token :: string
  expires_in :: int
  expiry_timestamp :: int
  token_type :: string
  project_id :: "string option"
  session_id :: "string option"

record CloudAccount =
  acc_id :: string
  provider :: string
  email :: string
  name :: "string option"
  avatar_url :: "string option"
  token :: TokenInfo
  quota :: "QuotaData option"
  created_at :: int
  last_used :: int
  status :: string
  is_active :: bool
  selected_models :: "string list option"

section \<open>Credential store (\<open>cloudHandler.ts\<close>)\<close>

text \<open>
  The \<open>accounts\<close> table is the list of its rows in table order, each row in decoded form
  (encryption of the token and quota columns is a round trip and is left out; the
  integer column \<open>is_active\<close> is the Boolean that \<open>Boolean(row.is_active)\<close> reads back).
  Every operation is one SQL statement or one transaction, hence one step of the model.
  Of the \<open>settings\<close> table the model keeps the Boolean values, which is what
  \<open>getSetting<boolean>\<close> reads.
\<close>

record store =
  accounts :: "CloudAccount list"
  settings :: "string \<rightharpoonup> bool"

text \<open>\<open>UPDATE accounts SET is_active = 0\<close>.\<close>

definition deactivateAll :: "CloudAccount list \<Rightarrow> CloudAccount list" where
  "deactivateAll rows = map (\<lambda>r. r\<lparr>is_active := False\<rparr>) rows"

text \<open>The row that \<open>addAccount\<close> binds to its \<open>INSERT\<close> statement.\<close>

definition toRow :: "CloudAccount \<Rightarrow> CloudAccount" where
  "toRow account =
     account
       \<lparr>name := orNull (name account),
        avatar_url := orNull (avatar_url account),
        status := (if status account = [] then ''active'' else status account)\<rparr>"

text \<open>
  \<open>INSERT OR REPLACE\<close> on the primary key \<open>id\<close>: a row with the same id is deleted and
  the new row is appended.
\<close>

definition insertOrReplace :: "CloudAccount \<Rightarrow> CloudAccount list \<Rightarrow> CloudAccount list" where
  "insertOrReplace row rows = filter (\<lambda>r. acc_id r \<noteq> acc_id row) rows @ [row]"

definition addAccount :: "CloudAccount \<Rightarrow> store \<Rightarrow> store" where
  "addAccount account s =
     (let rows1 = (if is_active account then deactivateAll (accounts s) else accounts s)
      in s\<lparr>accounts := insertOrReplace (toRow account) rows1\<rparr>)"

text \<open>\<open>SELECT * FROM accounts ORDER BY last_used DESC\<close> (rows of equal \<open>last_used\<close> in table order).\<close>

definition getAccounts :: "store \<Rightarrow> CloudAccount list" where
  "getAccounts s = sort_key (\<lambda>r. - last_used r) (accounts s)"

definition getAccount :: "string \<Rightarrow> store \<Rightarrow> CloudAccount option" where
  "getAccount i s = find (\<lambda>r. acc_id r = i) (accounts s)"

definition updateToken :: "string \<Rightarrow> TokenInfo \<Rightarrow> store \<Rightarrow> store" where
  "updateToken i tok s =
     s\<lparr>accounts := map (\<lambda>r. if acc_id r = i then r\<lparr>token := tok\<rparr> else r) (accounts s)\<rparr>"

definition setActive :: "string \<Rightarrow> store \<Rightarrow> store" where
  "setActive i s =
     s\<lparr>accounts :=
         map (\<lambda>r. if acc_id r = i then r\<lparr>is_active := True\<rparr> else r)
           (deactivateAll (accounts s))\<rparr>"

definition getSetting :: "store \<Rightarrow> string \<Rightarrow> bool \<Rightarrow> bool" where
  "getSetting s key defaultValue = (case settings s key of None \<Rightarrow> defaultValue | Some v \<Rightarrow> v)"

text \<open>Sequences of \<open>addAccount\<close> and \<open>setActive\<close> calls, and the number of active rows.\<close>

datatype store_op = Add CloudAccount | SetActive string

fun apply_op :: "store_op \<Rightarrow> store \<Rightarrow> store" where
  "apply_op (Add account) s = addAccount account s"
| "apply_op (SetActive i) s = setActive i s"

fun run_ops :: "store_op list \<Rightarrow> store \<Rightarrow> store" where
  "run_ops [] s = s"
| "run_ops (x # xs) s = run_ops xs (apply_op x s)"

definition activeCount :: "store \<Rightarrow> nat" where
  "activeCount s = length (filter is_active (accounts s))"

text \<open>The primary key: no two rows share an id.\<close>

definition wellFormed :: "store \<Rightarrow> bool" where
  "wellFormed s = distinct (map acc_id (accounts s))"

definition emptyStore :: store where
  "emptyStore = \<lparr>accounts = [], settings = Map.empty\<rparr>"

definition exampleToken :: TokenInfo where
  "exampleToken =
     \<lparr>access_token = ''at'', refresh_token = ''rt'', expires_in = 3600,
      expiry_timestamp = 5000, token_type = ''Bearer'', project_id = None,
      session_id = None\<rparr>"

definition exampleAccount :: "string \<Rightarrow> bool \<Rightarrow> CloudAccount" where
  "exampleAccount i act =
     \<lparr>acc_id = i, provider = ''google'', email = i @ ''@example.com'', name = None,
      avatar_url = None, token = exampleToken, quota = None, created_at = 1,
      last_used = 1, status = ''active'', is_active = act, selected_models = None\<rparr>"

section \<open>Health score and auto-switch (\<open>AutoSwitchService.ts\<close>)\<close>

text \<open>
  Scores are JavaScript numbers; the model computes them exactly, in \<open>real\<close>.
  \<open>Object.values(account.quota.models)\<close> is the list of the entries' values.
\<close>

definition HYSTERESIS_THRESHOLD :: real where
  "HYSTERESIS_THRESHOLD = 5"

definition calculateHealthScore :: "CloudAccount \<Rightarrow> real" where
  "calculateHealthScore account =
     (case quota account of
        None \<Rightarrow> 0
      | Some q \<Rightarrow>
          if status account = ''rate_limited'' \<or> status account = ''error'' then 0
          else
            let ms = map snd (models q) in
            if length ms = 0 then 0
            else
              let avgQuota = foldl (\<lambda>acc m. acc + percentage m) 0 ms / real (length ms);
                  score0 = (avgQuota / 100) * 60;
                  score1 = (if status account = ''active'' then score0 + 40 else score0);
                  score2 = (if status account = ''refreshing'' then score1 + 20 else score1)
              in min 100 (max 0 score2))"

text \<open>
  \<open>findBestAccount\<close>: the accounts other than the current one whose status is \<open>active\<close>,
  scored, filtered by the hysteresis guard and sorted by descending score (the sort is
  stable); the first one, if any.
\<close>

definition findBestAccount :: "store \<Rightarrow> string \<Rightarrow> real \<Rightarrow> CloudAccount option" where
  "findBestAccount s currentAccountId currentScore =
     (let candidates =
            sort_key (\<lambda>c. - snd c)
              (filter (\<lambda>c. snd c > currentScore + HYSTERESIS_THRESHOLD)
                 (map (\<lambda>acc. (acc, calculateHealthScore acc))
                    (filter (\<lambda>acc. acc_id acc \<noteq> currentAccountId \<and> status acc = ''active'')
                       (getAccounts s))))
      in case candidates of [] \<Rightarrow> None | c # _ \<Rightarrow> Some (fst c))"

definition isCritical :: "CloudAccount \<Rightarrow> bool" where
  "isCritical currentAccount =
     (calculateHealthScore currentAccount < 10 \<or> status currentAccount = ''rate_limited''
      \<or> status currentAccount = ''error'')"

text \<open>
  \<open>checkAndSwitchIfNeeded\<close>. Its only effect on the active account is the call
  \<open>switchCloudAccount(nextAccount.id)\<close>, after which it notifies and returns \<open>true\<close>;
  the model returns the \<open>nextAccount\<close> of that call, and \<open>None\<close> where the source
  returns \<open>false\<close> without calling it.
\<close>

definition checkAndSwitchIfNeeded :: "store \<Rightarrow> CloudAccount option" where
  "checkAndSwitchIfNeeded s =
     (if \<not> getSetting s ''auto_switch_enabled'' False then None
      else
        case find is_active (getAccounts s) of
          None \<Rightarrow> None
        | Some currentAccount \<Rightarrow>
            if isCritical currentAccount
            then findBestAccount s (acc_id currentAccount) (calculateHealthScore currentAccount)
            else None)"

text \<open>
  The health score as the specification states it: the arithmetic mean of the
  percentages of the model entries present, and a score of zero only for an absent
  quota or a \<open>rate_limited\<close> or \<open>error\<close> status.
\<close>

definition avgQuotaPercent :: "QuotaData \<Rightarrow> real" where
  "avgQuotaPercent q =
     sum_list (map (\<lambda>e. percentage (snd e)) (models q)) / real (length (models q))"

definition statedHealthScore :: "CloudAccount \<Rightarrow> real" where
  "statedHealthScore a =
     (if quota a = None \<or> status a = ''rate_limited'' \<or> status a = ''error'' then 0
      else min 100 (max 0
             (avgQuotaPercent (the (quota a)) / 100 * 60
                + (if status a = ''active'' then 40 else 0)
                + (if status a = ''refreshing'' then 20 else 0))))"

text \<open>Example data: a quota with the given percentages, and two stores.\<close>

definition quotaOf :: "real list \<Rightarrow> QuotaData" where
  "quotaOf ps =
     \<lparr>models = map (\<lambda>p. (''m'', \<lparr>percentage = p, resetTime = '''', displayName = None,
                                maxTokenAllowed = None, maxCompletionTokens = None\<rparr>)) ps\<rparr>"

definition switchStore :: store where
  "switchStore =
     \<lparr>accounts =
        [(exampleAccount ''a'' True)\<lparr>status := ''rate_limited'', quota := Some (quotaOf [10])\<rparr>,
         (exampleAccount ''b'' False)\<lparr>quota := Some (quotaOf [50, 100]), last_used := 7\<rparr>,
         (exampleAccount ''c'' False)\<lparr>quota := Some (quotaOf [50])\<rparr>],
      settings = [''auto_switch_enabled'' \<mapsto> True]\<rparr>"

definition hystStore :: store where
  "hystStore =
     \<lparr>accounts =
        [(exampleAccount ''a'' True)\<lparr>status := ''error'', quota := Some (quotaOf [90])\<rparr>,
         (exampleAccount ''b'' False)\<lparr>quota := Some (quotaOf [])\<rparr>,
         (exampleAccount ''c'' False)\<lparr>status := ''refreshing'', quota := Some (quotaOf [50])\<rparr>],
      settings = [''auto_switch_enabled'' \<mapsto> True]\<rparr>"

section \<open>Semantic cache (\<open>SemanticCacheRepo\<close>, \<open>SemanticCacheManager\<close>)\<close>

text \<open>
  A row of the table \<open>semantic_cache\<close>; the embedding blob is the vector it stores, with
  exact arithmetic on its components. The table is the list of its rows in table order.
\<close>

record CacheEntry =
  entry_id :: string
  prompt_hash :: string
  prompt_text :: string
  embedding_blob :: "real list"
  response_text :: string
  entry_model :: string
  entry_created_at :: int

text \<open>\<open>String.prototype.trim\<close> on ASCII: space, tab, line feed, vertical tab, form feed, carriage return.\<close>

definition isWhiteSpace :: "char \<Rightarrow> bool" where
  "isWhiteSpace c = (c \<in> set [CHR '' '', CHR 0x09, CHR 0x0A, CHR 0x0B, CHR 0x0C, CHR 0x0D])"

definition trim :: "string \<Rightarrow> string" where
  "trim s = rev (dropWhile isWhiteSpace (rev (dropWhile isWhiteSpace s)))"

text \<open>
  \<open>generateHash\<close>: the digest function of the \<open>crypto\<close> library (SHA-256, in hexadecimal)
  is a parameter.
\<close>

definition generateHash :: "(string \<Rightarrow> string) \<Rightarrow> string \<Rightarrow> string" where
  "generateHash sha256 text = sha256 (trim text)"

text \<open>\<open>findExact\<close>: the first row whose hash column matches, or \<open>null\<close>.\<close>

definition findExact :: "(string \<Rightarrow> string) \<Rightarrow> CacheEntry list \<Rightarrow> string \<Rightarrow> string option" where
  "findExact sha256 rows prompt =
     (case find (\<lambda>row. prompt_hash row = generateHash sha256 prompt) rows of
        None \<Rightarrow> None
      | Some row \<Rightarrow> Some (response_text row))"

definition cosineSimilarity :: "real list \<Rightarrow> real list \<Rightarrow> real" where
  "cosineSimilarity a b =
     (if length a \<noteq> length b then 0
      else foldl (\<lambda>dotProduct (x, y). dotProduct + x * y) 0 (zip a b))"

fun findSemantic :: "real list \<Rightarrow> real \<Rightarrow> CacheEntry list \<Rightarrow> string option" where
  "findSemantic queryEmbedding threshold [] = None"
| "findSemantic queryEmbedding threshold (row # rows) =
     (if cosineSimilarity queryEmbedding (embedding_blob row) \<ge> threshold
      then Some (response_text row)
      else findSemantic queryEmbedding threshold rows)"

text \<open>
  \<open>findResponse\<close>. \<open>fetchEmbedding\<close> is the call to the embedding endpoint: \<open>None\<close> when
  it throws. \<open>if (exactHit)\<close> and \<open>if (semanticHit)\<close> test truthiness: \<open>null\<close> and the empty
  string both fail them. The result \<open>None\<close> is \<open>null\<close>.
\<close>

definition findResponse ::
  "(string \<Rightarrow> string) \<Rightarrow> (string \<Rightarrow> string \<Rightarrow> real list option) \<Rightarrow> CacheEntry list
     \<Rightarrow> string \<Rightarrow> string \<Rightarrow> string option" where
  "findResponse sha256 fetchEmbedding rows prompt accessToken =
     (let exactHit = findExact sha256 rows prompt in
      if exactHit \<noteq> None \<and> exactHit \<noteq> Some []
      then exactHit
      else
        case fetchEmbedding prompt accessToken of
          None \<Rightarrow> None
        | Some embedding \<Rightarrow>
            let semanticHit = findSemantic embedding (97 / 100) rows in
            if semanticHit \<noteq> None \<and> semanticHit \<noteq> Some [] then semanticHit else None)"

text \<open>The dot product of two vectors of the same dimension.\<close>

definition dot :: "real list \<Rightarrow> real list \<Rightarrow> real" where
  "dot a b = sum_list (map (\<lambda>(x, y). x * y) (zip a b))"

text \<open>
  The lookup as the specification states it: an exact hit is returned; otherwise the
  response of the first row whose dot product with the query vector reaches the
  threshold, and \<open>null\<close> when there is none or the embedding cannot be fetched.
\<close>

definition statedFindResponse ::
  "(string \<Rightarrow> string) \<Rightarrow> (string \<Rightarrow> string \<Rightarrow> real list option) \<Rightarrow> CacheEntry list
     \<Rightarrow> string \<Rightarrow> string \<Rightarrow> string option" where
  "statedFindResponse sha256 fetchEmbedding rows prompt accessToken =
     (case findExact sha256 rows prompt of
        Some r \<Rightarrow> Some r
      | None \<Rightarrow>
          (case fetchEmbedding prompt accessToken of
             None \<Rightarrow> None
           | Some q \<Rightarrow>
               map_option response_text
                 (find (\<lambda>row. dot q (embedding_blob row) \<ge> 97 / 100) rows)))"

text \<open>Example data: a digest stand-in, an embedding oracle and a table.\<close>

definition exampleEntry :: "string \<Rightarrow> real list \<Rightarrow> string \<Rightarrow> CacheEntry" where
  "exampleEntry h v r =
     \<lparr>entry_id = ''id-'' @ h, prompt_hash = h, prompt_text = h, embedding_blob = v,
      response_text = r, entry_model = ''gemini'', entry_created_at = 1\<rparr>"

definition exampleEmbedding :: "string \<Rightarrow> string \<Rightarrow> real list option" where
  "exampleEmbedding prompt accessToken =
     (if accessToken = ''bad'' then None
      else if prompt = ''hello'' then Some [0, 1]
      else Some [1, 0])"

definition exampleCache :: "CacheEntry list" where
  "exampleCache =
     [exampleEntry ''hello'' [1, 0] '''',
      exampleEntry ''bye'' [0, 1] ''old answer'',
      exampleEntry ''hi'' [3 / 5, 4 / 5] ''hi there'']"

text \<open>A lookup result that is the empty string counts as no result.\<close>

definition nonEmpty :: "string option \<Rightarrow> string option" where
  "nonEmpty r = (if r = Some [] then None else r)"

section \<open>Token manager (\<open>TokenManagerService\<close>)\<close>

text \<open>
  \<open>TokenData\<close>, the value type of the in-memory map; its fields carry the prefix \<open>td_\<close>
  where the name is also a field of \<open>CloudAccount\<close> or of its token.
\<close>

record TokenData =
  td_email :: string
  account_id :: string
  td_provider :: string
  td_access_token :: string
  td_refresh_token :: string
  td_expires_in :: int
  td_expiry_timestamp :: int
  td_project_id :: "string option"
  td_session_id :: "string option"
  td_selected_models :: "string list option"

text \<open>
  The state of the service. \<open>tokens\<close> is a JavaScript \<open>Map\<close>: an association list in
  insertion order with distinct keys, where \<open>set\<close> on a present key replaces the value in
  place and on a new key appends (\<open>AList.update\<close>). \<open>currentIndex\<close> is a JavaScript
  number that starts at 0 and is only ever incremented; it is modelled as a natural
  number (exact for fewer than \<open>2^53\<close> selections).
\<close>

record manager =
  currentIndex :: nat
  tokens :: "(string \<times> TokenData) list"
  cooldowns :: "string \<rightharpoonup> int"

text \<open>
  The outside world of one \<open>getNextToken\<close> call: the clock (\<open>Date.now()\<close>, milliseconds),
  the two calls to \<open>GoogleAPIService\<close>, each of which returns or throws, and the random
  session id drawn for an account that has none. Of a \<open>TokenResponse\<close> the service reads
  \<open>access_token\<close> and \<open>expires_in\<close>.
\<close>

datatype 'a call = Returns 'a | Throws

record TokenResponse =
  resp_access_token :: string
  resp_expires_in :: int

record env =
  now :: int
  refreshAccessToken :: "string \<Rightarrow> TokenResponse call"
  fetchProjectId :: "string \<Rightarrow> string option call"
  generateSessionId :: "string \<Rightarrow> string"

text \<open>
  The service together with the store it reads and writes. Store reads do not fail in
  the model, and every row has a token (the column is \<open>NOT NULL\<close>), so the guards on a
  missing token in \<open>convertAccountToToken\<close>, \<open>saveRefreshedToken\<close> and \<open>saveProjectId\<close>
  never fire.
\<close>

record world =
  mgr :: manager
  db :: store

definition convertAccountToToken :: "env \<Rightarrow> CloudAccount \<Rightarrow> TokenData" where
  "convertAccountToToken e account =
     \<lparr>td_email = email account,
      account_id = acc_id account,
      td_provider = provider account,
      td_access_token = access_token (token account),
      td_refresh_token = refresh_token (token account),
      td_expires_in = expires_in (token account),
      td_expiry_timestamp = expiry_timestamp (token account),
      td_project_id = orNull (project_id (token account)),
      td_session_id =
        Some (case orNull (session_id (token account)) of
                Some sid \<Rightarrow> sid
              | None \<Rightarrow> generateSessionId e (acc_id account)),
      td_selected_models = selected_models account\<rparr>"

definition loadAccounts :: "env \<Rightarrow> store \<Rightarrow> manager \<Rightarrow> manager" where
  "loadAccounts e s m =
     m\<lparr>tokens :=
         foldl (\<lambda>ts account. AList.update (acc_id account) (convertAccountToToken e account) ts)
           (tokens m) (getAccounts s)\<rparr>"

text \<open>\<open>!cooldownUntil || cooldownUntil <= now\<close>: no entry, a zero entry, or an expired one.\<close>

definition isNotCooldown :: "manager \<Rightarrow> int \<Rightarrow> TokenData \<Rightarrow> bool" where
  "isNotCooldown m nowMs data =
     (case cooldowns m (td_email data) of
        None \<Rightarrow> True
      | Some cooldownUntil \<Rightarrow> cooldownUntil = 0 \<or> cooldownUntil \<le> nowMs)"

definition normalizeModel :: "string \<Rightarrow> string" where
  "normalizeModel s = toLowerCase (stripModelsPrefix s)"

text \<open>
  The model filter. \<open>requestedModel && data.selected_models && data.selected_models.length > 0\<close>:
  an absent or empty \<open>requestedModel\<close> and an absent or empty list skip the test.
\<close>

definition isModelAllowed :: "string option \<Rightarrow> TokenData \<Rightarrow> bool" where
  "isModelAllowed requestedModel data =
     (case requestedModel of
        None \<Rightarrow> True
      | Some rm \<Rightarrow>
          (case td_selected_models data of
             None \<Rightarrow> True
           | Some sms \<Rightarrow>
               if rm \<noteq> [] \<and> length sms > 0
               then list_ex (\<lambda>sm. normalizeModel sm = normalizeModel rm) sms
               else True))"

definition validTokens :: "manager \<Rightarrow> int \<Rightarrow> string option \<Rightarrow> (string \<times> TokenData) list" where
  "validTokens m nowMs requestedModel =
     filter (\<lambda>(accountId, data). isNotCooldown m nowMs data \<and> isModelAllowed requestedModel data)
       (tokens m)"

text \<open>\<open>validTokens[this.currentIndex % validTokens.length]; this.currentIndex++\<close>.\<close>

definition roundRobin ::
  "manager \<Rightarrow> (string \<times> TokenData) list \<Rightarrow> (string \<times> TokenData) \<times> manager" where
  "roundRobin m valid =
     (valid ! (currentIndex m mod length valid), m\<lparr>currentIndex := currentIndex m + 1\<rparr>)"

text \<open>
  The selection part of \<open>getNextToken\<close>: \<open>None\<close> where the source returns \<open>null\<close> because no
  token passes the filters, otherwise the chosen map entry and the service after the
  choice.
\<close>

definition selectToken ::
  "env \<Rightarrow> string option \<Rightarrow> store \<Rightarrow> manager \<Rightarrow> ((string \<times> TokenData) \<times> manager) option" where
  "selectToken e requestedModel s m =
     (let valid = validTokens m (now e) requestedModel in
      if length valid = 0 then None
      else
        Some (case find is_active (getAccounts s) of
                None \<Rightarrow> roundRobin m valid
              | Some activeAccount \<Rightarrow>
                  if startsWith (provider activeAccount) ''local-''
                  then (case map_of (tokens m) (acc_id activeAccount) of
                          Some localToken \<Rightarrow> ((acc_id activeAccount, localToken), m)
                        | None \<Rightarrow> roundRobin m valid)
                  else roundRobin m valid))"

definition saveRefreshedToken :: "string \<Rightarrow> TokenData \<Rightarrow> store \<Rightarrow> store" where
  "saveRefreshedToken accountId tokenData s =
     (case getAccount accountId s of
        None \<Rightarrow> s
      | Some acc \<Rightarrow>
          updateToken accountId
            ((token acc)
               \<lparr>access_token := td_access_token tokenData,
                expires_in := td_expires_in tokenData,
                expiry_timestamp := td_expiry_timestamp tokenData\<rparr>) s)"

definition saveProjectId :: "string \<Rightarrow> string \<Rightarrow> store \<Rightarrow> store" where
  "saveProjectId accountId projectId s =
     (case getAccount accountId s of
        None \<Rightarrow> s
      | Some acc \<Rightarrow> updateToken accountId ((token acc)\<lparr>project_id := Some projectId\<rparr>) s)"

text \<open>
  The refresh step. \<open>tokenData\<close> is the object held by the map, so assigning to its fields
  changes the map entry: the model writes the changed record back at \<open>accountId\<close>.
\<close>

definition refreshIfExpiring ::
  "env \<Rightarrow> string \<Rightarrow> TokenData \<Rightarrow> manager \<times> store \<Rightarrow> TokenData \<times> manager \<times> store" where
  "refreshIfExpiring e accountId tokenData ms =
     (let nowSeconds = now e div 1000 in
      if nowSeconds \<ge> td_expiry_timestamp tokenData - 300
      then (case refreshAccessToken e (td_refresh_token tokenData) of
              Throws \<Rightarrow> (tokenData, ms)
            | Returns newTokens \<Rightarrow>
                let td' = tokenData
                      \<lparr>td_access_token := resp_access_token newTokens,
                       td_expires_in := resp_expires_in newTokens,
                       td_expiry_timestamp := nowSeconds + resp_expires_in newTokens\<rparr>
                in (td', (fst ms)\<lparr>tokens := AList.update accountId td' (tokens (fst ms))\<rparr>,
                    saveRefreshedToken accountId td' (snd ms)))
      else (tokenData, ms))"

text \<open>
  The project-id step. \<open>!tokenData.project_id\<close> holds for an absent and for an empty id,
  \<open>if (realId)\<close> fails for \<open>null\<close> and for the empty string. Only the branch of a
  discovered id calls \<open>saveProjectId\<close>.
\<close>

definition fallbackProjectId :: "TokenData \<Rightarrow> string" where
  "fallbackProjectId tokenData = ''cloud-code-'' @ localPart (td_email tokenData)"

definition setProjectId ::
  "string \<Rightarrow> TokenData \<Rightarrow> string \<Rightarrow> manager \<Rightarrow> TokenData \<times> manager" where
  "setProjectId accountId tokenData pid m =
     (let td' = tokenData\<lparr>td_project_id := Some pid\<rparr>
      in (td', m\<lparr>tokens := AList.update accountId td' (tokens m)\<rparr>))"

definition resolveProjectId ::
  "env \<Rightarrow> string \<Rightarrow> TokenData \<Rightarrow> manager \<times> store \<Rightarrow> TokenData \<times> manager \<times> store" where
  "resolveProjectId e accountId tokenData ms =
     (if (td_project_id tokenData = None \<or> td_project_id tokenData = Some [])
          \<and> (td_provider tokenData = ''google'' \<or> td_provider tokenData = ''anthropic'')
      then (case fetchProjectId e (td_access_token tokenData) of
              Returns (Some realId) \<Rightarrow>
                if realId \<noteq> []
                then (case setProjectId accountId tokenData realId (fst ms) of
                        (td', m') \<Rightarrow> (td', m', saveProjectId accountId realId (snd ms)))
                else (case setProjectId accountId tokenData (fallbackProjectId tokenData) (fst ms) of
                        (td', m') \<Rightarrow> (td', m', snd ms))
            | Returns None \<Rightarrow>
                (case setProjectId accountId tokenData (fallbackProjectId tokenData) (fst ms) of
                   (td', m') \<Rightarrow> (td', m', snd ms))
            | Throws \<Rightarrow>
                (case setProjectId accountId tokenData (fallbackProjectId tokenData) (fst ms) of
                   (td', m') \<Rightarrow> (td', m', snd ms)))
      else (tokenData, ms))"

text \<open>The account view that \<open>getNextToken\<close> returns: id, e-mail, provider and token material.\<close>

record RoutedAccount =
  r_id :: string
  r_email :: string
  r_provider :: string
  r_access_token :: string
  r_refresh_token :: string
  r_expires_in :: int
  r_expiry_timestamp :: int
  r_project_id :: "string option"
  r_session_id :: "string option"

definition toRouted :: "string \<Rightarrow> TokenData \<Rightarrow> RoutedAccount" where
  "toRouted accountId tokenData =
     \<lparr>r_id = accountId,
      r_email = td_email tokenData,
      r_provider = td_provider tokenData,
      r_access_token = td_access_token tokenData,
      r_refresh_token = td_refresh_token tokenData,
      r_expires_in = td_expires_in tokenData,
      r_expiry_timestamp = td_expiry_timestamp tokenData,
      r_project_id = td_project_id tokenData,
      r_session_id = td_session_id tokenData\<rparr>"

text \<open>The map after the reload of an empty map.\<close>

definition ensureLoaded :: "env \<Rightarrow> world \<Rightarrow> manager" where
  "ensureLoaded e w =
     (if length (tokens (mgr w)) = 0 then loadAccounts e (db w) (mgr w) else mgr w)"

definition getNextToken :: "env \<Rightarrow> string option \<Rightarrow> world \<Rightarrow> RoutedAccount option \<times> world" where
  "getNextToken e requestedModel w =
     (let m0 = ensureLoaded e w in
      if length (tokens m0) = 0 then (None, w\<lparr>mgr := m0\<rparr>)
      else
        case selectToken e requestedModel (db w) m0 of
          None \<Rightarrow> (None, w\<lparr>mgr := m0\<rparr>)
        | Some ((accountId, tokenData), m1) \<Rightarrow>
            (case refreshIfExpiring e accountId tokenData (m1, db w) of
               (td1, ms1) \<Rightarrow>
                 (case resolveProjectId e accountId td1 ms1 of
                    (td2, m2, s2) \<Rightarrow> (Some (toRouted accountId td2), \<lparr>mgr = m2, db = s2\<rparr>))))"

text \<open>\<open>markAsRateLimited\<close> at clock reading \<open>nowMs\<close>, and \<open>resetCooldown\<close>.\<close>

definition markAsRateLimited :: "int \<Rightarrow> string \<Rightarrow> manager \<Rightarrow> manager" where
  "markAsRateLimited nowMs em m = m\<lparr>cooldowns := (cooldowns m)(em \<mapsto> nowMs + 5 * 60 * 1000)\<rparr>"

definition resetCooldown :: "string \<Rightarrow> manager \<Rightarrow> manager" where
  "resetCooldown em m = m\<lparr>cooldowns := (cooldowns m)(em := None)\<rparr>"

text \<open>A sequence of \<open>getNextToken\<close> calls, each with its own outside world and requested model.\<close>

fun getNextTokens ::
  "(env \<times> string option) list \<Rightarrow> world \<Rightarrow> RoutedAccount option list \<times> world" where
  "getNextTokens [] w = ([], w)"
| "getNextTokens ((e, requestedModel) # calls) w =
     (case getNextToken e requestedModel w of
        (r, w1) \<Rightarrow> (case getNextTokens calls w1 of (rs, w2) \<Rightarrow> (r # rs, w2)))"

text \<open>No active account of a local provider is stored.\<close>

definition noActiveLocal :: "store \<Rightarrow> bool" where
  "noActiveLocal s =
     (case find is_active (getAccounts s) of
        None \<Rightarrow> True
      | Some a \<Rightarrow> \<not> startsWith (provider a) ''local-'')"

text \<open>
  The candidate set is stable over a sequence of calls: at each call no active local
  account is stored and the ids of the filtered candidate list (of the map, reloaded if
  empty) are \<open>C\<close>.
\<close>

fun stableCandidates :: "string list \<Rightarrow> (env \<times> string option) list \<Rightarrow> world \<Rightarrow> bool" where
  "stableCandidates C [] w = True"
| "stableCandidates C ((e, requestedModel) # calls) w =
     (noActiveLocal (db w)
      \<and> map fst (validTokens (ensureLoaded e w) (now e) requestedModel) = C
      \<and> stableCandidates C calls (snd (getNextToken e requestedModel w)))"

text \<open>
  The model filter as the specification states it, for a given requested model: an
  absent or empty list passes; a non-empty list passes exactly when the normalised
  requested model is one of its normalised elements.
\<close>

definition statedModelFilter :: "string \<Rightarrow> TokenData \<Rightarrow> bool" where
  "statedModelFilter rm data =
     (td_selected_models data = None \<or> td_selected_models data = Some []
      \<or> normalizeModel rm \<in> normalizeModel ` set (the (td_selected_models data)))"

text \<open>Example data for the token manager.\<close>

definition exampleData :: "string \<Rightarrow> string \<Rightarrow> string list option \<Rightarrow> TokenData" where
  "exampleData i prov sel =
     \<lparr>td_email = i @ ''@example.com'', account_id = i, td_provider = prov,
      td_access_token = ''at-'' @ i, td_refresh_token = ''rt-'' @ i, td_expires_in = 3600,
      td_expiry_timestamp = 5000, td_project_id = Some ''proj'', td_session_id = Some ''-1'',
      td_selected_models = sel\<rparr>"

definition exampleEnv :: "int \<Rightarrow> env" where
  "exampleEnv nowMs =
     \<lparr>now = nowMs,
      refreshAccessToken =
        (\<lambda>rt. if rt = ''rt-a''
              then Returns \<lparr>resp_access_token = ''new'', resp_expires_in = 3600\<rparr>
              else Throws),
      fetchProjectId =
        (\<lambda>tok. if tok = ''at-a'' then Returns None
              else if tok = ''at-b'' then Returns (Some ''real-project'')
              else Throws),
      generateSessionId = (\<lambda>i. ''-1'')\<rparr>"

definition exampleManager :: "nat \<Rightarrow> (string \<times> TokenData) list \<Rightarrow> manager" where
  "exampleManager i ts = \<lparr>currentIndex = i, tokens = ts, cooldowns = Map.empty\<rparr>"

definition cloudWorld :: world where
  "cloudWorld =
     \<lparr>mgr = exampleManager 1
              [(''a'', exampleData ''a'' ''google'' None),
               (''b'', exampleData ''b'' ''google'' (Some [])),
               (''c'', exampleData ''c'' ''google'' (Some [''models/GPT-4'']))],
      db = \<lparr>accounts = [exampleAccount ''a'' True, exampleAccount ''b'' False,
                         exampleAccount ''c'' False],
            settings = Map.empty\<rparr>\<rparr>"

text \<open>The token material of a stored row that a refresh rewrites, with the row's id.\<close>

definition refreshFields :: "CloudAccount \<Rightarrow> string \<times> string \<times> int \<times> int" where
  "refreshFields row =
     (acc_id row, access_token (token row), expires_in (token row), expiry_timestamp (token row))"

definition localWorld :: world where
  "localWorld =
     \<lparr>mgr = \<lparr>currentIndex = 0,
              tokens = [(''l'', exampleData ''l'' ''local-ollama'' (Some [''llama3''])),
                        (''a'', exampleData ''a'' ''google'' None)],
              cooldowns = [''l@example.com'' \<mapsto> 9000000]\<rparr>,
      db = \<lparr>accounts = [(exampleAccount ''l'' True)\<lparr>provider := ''local-ollama''\<rparr>,
                         exampleAccount ''a'' False],
            settings = Map.empty\<rparr>\<rparr>"

definition localOnlyWorld :: world where
  "localOnlyWorld =
     \<lparr>mgr = exampleManager 0 [(''l'', exampleData ''l'' ''local-ollama'' (Some [''llama3'']))],
      db = \<lparr>accounts = [(exampleAccount ''l'' True)\<lparr>provider := ''local-ollama''\<rparr>],
            settings = Map.empty\<rparr>\<rparr>"

definition freshWorld :: world where
  "freshWorld =
     \<lparr>mgr = exampleManager 0 [],
      db = \<lparr>accounts =
               [(exampleAccount ''a'' True)\<lparr>token := exampleToken\<lparr>access_token := ''at-a'', refresh_token := ''rt-a''\<rparr>\<rparr>,
                (exampleAccount ''b'' False)\<lparr>token := exampleToken\<lparr>access_token := ''at-b'', refresh_token := ''rt-b''\<rparr>,
                                              last_used := 0\<rparr>],
            settings = Map.empty\<rparr>\<rparr>"

section \<open>Proxy retry loop (\<open>ProxyService\<close>)\<close>

text \<open>
  \<open>shouldRetry\<close>: the lower-cased message contains \<open>429\<close>, \<open>quota\<close>, \<open>limit\<close> or
  \<open>resource_exhausted\<close>, that is, it matches \<open>/429|quota|limit|resource_exhausted/i\<close>.
\<close>

definition shouldRetry :: "string \<Rightarrow> bool" where
  "shouldRetry msg =
     (let l = toLowerCase msg
      in str_includes l ''429'' \<or> str_includes l ''quota'' \<or> str_includes l ''limit''
         \<or> str_includes l ''resource_exhausted'')"

text \<open>
  Of a chat request the loop reads the model and the last user message (the cache key).
  A reply is the local server's, a cached one or the upstream's; its conversion to the
  caller's wire format is left out. A call to a client returns a reply text or throws
  an error with a message.
\<close>

record request =
  req_model :: string
  req_prompt :: string

datatype reply = LocalReply string | CachedReply string | UpstreamReply string

datatype upstream = Ok string | Fails string

datatype handled = Replied reply | Failed string

text \<open>
  The outside world of one attempt: that of its \<open>getNextToken\<close> call, the local client,
  the digest and embedding calls of the cache lookup, the upstream dispatch (request
  translation, \<open>GeminiClient\<close> call and response translation, the body of the \<open>try\<close>),
  and the clock reading of \<open>markAsRateLimited\<close>.
\<close>

record attempt =
  att_env :: env
  localChat :: "RoutedAccount \<Rightarrow> upstream"
  cacheHash :: "string \<Rightarrow> string"
  cacheEmbedding :: "string \<Rightarrow> string \<Rightarrow> real list option"
  dispatch :: "RoutedAccount \<Rightarrow> upstream"
  markNow :: int

definition maxRetries :: nat where
  "maxRetries = 3"

text \<open>
  The \<open>catch\<close> block of the loop body: the error becomes the last error (kept by the
  loop), and the account is marked rate-limited if \<open>shouldRetry\<close> holds of the message.
\<close>

definition catchDispatchError :: "attempt \<Rightarrow> RoutedAccount \<Rightarrow> string \<Rightarrow> world \<Rightarrow> world" where
  "catchDispatchError a tk msg w =
     (if shouldRetry msg
      then w\<lparr>mgr := markAsRateLimited (markNow a) (r_email tk) (mgr w)\<rparr>
      else w)"

text \<open>
  The loop \<open>for (let i = 0; i < maxRetries; i++)\<close> of both handlers, from iteration \<open>i\<close>
  with the last error recorded so far. The result is the reply or the error thrown, the
  state of the token manager and the store, and (for the statement of the properties
  only) the e-mails of the accounts an upstream dispatch was attempted with, in order.
  The cache is read only: the write after a reply is not awaited. The back-off sleep of
  the Anthropic handler changes no state.
\<close>

function retryLoop ::
  "(nat \<Rightarrow> attempt) \<Rightarrow> CacheEntry list \<Rightarrow> request \<Rightarrow> nat \<Rightarrow> string option \<Rightarrow> world
     \<Rightarrow> handled \<times> world \<times> string list" where
  "retryLoop att rows req i lastError w =
     (if i < maxRetries
      then
        (case getNextToken (att_env (att i)) (Some (req_model req)) w of
           (None, w1) \<Rightarrow>
             (Failed (''No available accounts satisfy model: '' @ req_model req), w1, [])
         | (Some tk, w1) \<Rightarrow>
             if startsWith (r_provider tk) ''local-''
             then (case localChat (att i) tk of
                     Ok r \<Rightarrow> (Replied (LocalReply r), w1, [])
                   | Fails msg \<Rightarrow> (Failed msg, w1, []))
             else
               (case findResponse (cacheHash (att i)) (cacheEmbedding (att i)) rows
                       (req_prompt req) (r_access_token tk) of
                  Some cachedResponse \<Rightarrow> (Replied (CachedReply cachedResponse), w1, [])
                | None \<Rightarrow>
                    (case dispatch (att i) tk of
                       Ok r \<Rightarrow> (Replied (UpstreamReply r), w1, [r_email tk])
                     | Fails msg \<Rightarrow>
                         (case retryLoop att rows req (Suc i) (Some msg)
                                 (catchDispatchError (att i) tk msg w1) of
                            (h, w2, ds) \<Rightarrow> (h, w2, r_email tk # ds)))))
      else
        (Failed (case lastError of Some msg \<Rightarrow> msg | None \<Rightarrow> ''Request failed after retries''),
         w, []))"
  by pat_completeness auto
termination
  by (relation "measure (\<lambda>(att, rows, req, i, lastError, w). maxRetries - i)") auto

declare retryLoop.simps [simp del]

definition handleChatCompletions ::
  "(nat \<Rightarrow> attempt) \<Rightarrow> CacheEntry list \<Rightarrow> request \<Rightarrow> world \<Rightarrow> handled \<times> world \<times> string list" where
  "handleChatCompletions att rows req w = retryLoop att rows req 0 None w"

definition handleAnthropicMessages ::
  "(nat \<Rightarrow> attempt) \<Rightarrow> CacheEntry list \<Rightarrow> request \<Rightarrow> world \<Rightarrow> handled \<times> world \<times> string list" where
  "handleAnthropicMessages att rows req w = retryLoop att rows req 0 None w"

text \<open>
  The retry policy as the specification states it, for one failed dispatch: a message
  that matches the pattern sends the loop to its next attempt, any other message ends
  the loop with that error.
\<close>

definition statedAfterFailure :: "string \<Rightarrow> handled option" where
  "statedAfterFailure msg = (if shouldRetry msg then None else Some (Failed msg))"

text \<open>Example data: upstream attempts that fail with the given messages, then succeed.\<close>

definition exampleAttempt :: "string list \<Rightarrow> nat \<Rightarrow> attempt" where
  "exampleAttempt msgs i =
     \<lparr>att_env = exampleEnv 1000000,
      localChat = (\<lambda>tk. Ok ''local''),
      cacheHash = (\<lambda>s. s),
      cacheEmbedding = (\<lambda>p tok. None),
      dispatch = (\<lambda>tk. if i < length msgs then Fails (msgs ! i) else Ok ''done''),
      markNow = 2000000 + int i\<rparr>"

definition exampleRequest :: request where
  "exampleRequest = \<lparr>req_model = ''gpt-4'', req_prompt = ''what''\<rparr>"

section \<open>Active-singleton invariant\<close>

lemma filter_deactivateAll [simp]: "filter is_active (deactivateAll rows) = []"
  by (induction rows) (simp_all add: deactivateAll_def)

lemma map_id_deactivateAll [simp]: "map acc_id (deactivateAll rows) = map acc_id rows"
  by (simp add: deactivateAll_def)

lemma is_active_toRow [simp]: "is_active (toRow a) = is_active a"
  by (simp add: toRow_def)

lemma acc_id_toRow [simp]: "acc_id (toRow a) = acc_id a"
  by (simp add: toRow_def)

lemma length_filter_filter_le:
  "length (filter P (filter Q xs)) \<le> length (filter P xs)"
  by (induction xs) auto

lemma activeCount_addAccount:
  assumes "activeCount s \<le> 1"
  shows "activeCount (addAccount a s) \<le> 1"
proof (cases "is_active a")
  case True
  have "filter is_active (filter (\<lambda>r. acc_id r \<noteq> acc_id a) (deactivateAll (accounts s))) = []"
    by (simp add: filter_empty_conv deactivateAll_def)
  with True show ?thesis
    by (simp add: activeCount_def addAccount_def insertOrReplace_def)
next
  case False
  have "length (filter is_active (filter (\<lambda>r. acc_id r \<noteq> acc_id a) (accounts s)))
          \<le> length (filter is_active (accounts s))"
    by (rule length_filter_filter_le)
  with False assms show ?thesis
    by (simp add: activeCount_def addAccount_def insertOrReplace_def)
qed

lemma wellFormed_addAccount: "wellFormed s \<Longrightarrow> wellFormed (addAccount a s)"
  by (auto simp: wellFormed_def addAccount_def insertOrReplace_def distinct_map_filter)

lemma acc_id_promote:
  "acc_id \<circ> (\<lambda>r. if acc_id r = i then r\<lparr>is_active := True\<rparr> else r) = acc_id"
  by (auto simp: fun_eq_iff)

lemma wellFormed_setActive: "wellFormed s \<Longrightarrow> wellFormed (setActive i s)"
  by (simp add: wellFormed_def setActive_def acc_id_promote)

lemma promoted_filter:
  "filter is_active (map (\<lambda>r. if acc_id r = i then r\<lparr>is_active := True\<rparr> else r)
       (deactivateAll rows))
     = map (\<lambda>r. r\<lparr>is_active := True\<rparr>) (filter (\<lambda>r. acc_id r = i) rows)"
  by (induction rows) (simp_all add: deactivateAll_def)

lemma distinct_filter_key_le1:
  "distinct (map f xs) \<Longrightarrow> length (filter (\<lambda>r. f r = k) xs) \<le> 1"
proof (induction xs)
  case Nil
  then show ?case by simp
next
  case (Cons x xs)
  show ?case
  proof (cases "f x = k")
    case True
    have "filter (\<lambda>r. f r = k) xs = []"
      using Cons.prems True by (auto simp: filter_empty_conv image_iff)
    with True show ?thesis by simp
  next
    case False
    with Cons show ?thesis by simp
  qed
qed

lemma activeCount_setActive: "wellFormed s \<Longrightarrow> activeCount (setActive i s) \<le> 1"
  using distinct_filter_key_le1 [of acc_id "accounts s" i]
  by (simp add: activeCount_def setActive_def promoted_filter wellFormed_def)

lemma run_ops_invariant:
  "wellFormed s \<Longrightarrow> activeCount s \<le> 1 \<Longrightarrow>
     wellFormed (run_ops ops s) \<and> activeCount (run_ops ops s) \<le> 1"
proof (induction ops arbitrary: s)
  case Nil
  then show ?case by simp
next
  case (Cons x xs)
  have "wellFormed (apply_op x s) \<and> activeCount (apply_op x s) \<le> 1"
  proof (cases x)
    case (Add a)
    with Cons.prems wellFormed_addAccount [of s a] activeCount_addAccount [of s a]
    show ?thesis by simp
  next
    case (SetActive i)
    with Cons.prems wellFormed_setActive [of s i] activeCount_setActive [of s i]
    show ?thesis by simp
  qed
  with Cons.IH show ?case by simp
qed

lemma setActive_rows:
  "r \<in> set (accounts (setActive i s)) \<Longrightarrow> is_active r = (acc_id r = i)"
  by (auto simp: setActive_def deactivateAll_def)

lemma addAccount_active_rows:
  "is_active a \<Longrightarrow> r \<in> set (accounts (addAccount a s)) \<Longrightarrow> is_active r = (acc_id r = acc_id a)"
  by (auto simp: addAccount_def insertOrReplace_def deactivateAll_def)

text \<open>
  C1. Starting from a table that satisfies its primary key and holds at most one active
  row (the empty table in particular), every sequence of \<open>addAccount\<close> and \<open>setActive\<close>
  calls leaves at most one row with \<open>is_active\<close> set. \<open>setActive i\<close> leaves exactly the
  rows of id \<open>i\<close> active, and \<open>addAccount\<close> of an active account leaves exactly the row of
  that account active; each is a single transaction, so no state in between is observable.
\<close>

theorem active_singleton_invariant:
  "wellFormed s \<and> activeCount s \<le> 1 \<longrightarrow>
     activeCount (run_ops ops s) \<le> 1
     \<and> (\<forall>r \<in> set (accounts (setActive i (run_ops ops s))). is_active r = (acc_id r = i))
     \<and> (is_active a \<longrightarrow>
          (\<forall>r \<in> set (accounts (addAccount a (run_ops ops s))).
             is_active r = (acc_id r = acc_id a)))"
  using run_ops_invariant [of s ops] setActive_rows [of _ i "run_ops ops s"]
    addAccount_active_rows [of a _ "run_ops ops s"]
  by blast

theorem active_singleton_invariant_witness:
  "wellFormed emptyStore \<and> activeCount emptyStore \<le> 1
   \<and> activeCount
        (run_ops [Add (exampleAccount ''a'' True), Add (exampleAccount ''b'' True),
                  SetActive ''a'', Add (exampleAccount ''c'' False)] emptyStore) \<le> 1
   \<and> is_active (exampleAccount ''b'' True)"
  using active_singleton_invariant
    [of emptyStore
        "[Add (exampleAccount ''a'' True), Add (exampleAccount ''b'' True),
          SetActive ''a'', Add (exampleAccount ''c'' False)]"
        "''a''" "exampleAccount ''b'' True"]
  by (simp add: wellFormed_def activeCount_def emptyStore_def exampleAccount_def)

section \<open>Health score\<close>

lemma foldl_add: "foldl (\<lambda>acc m. acc + f m) z xs = z + sum_list (map f xs)" for z :: real
  by (induction xs arbitrary: z) simp_all

text \<open>
  C8 (as stated, refuted). An account whose quota is present but lists no model, with
  status \<open>active\<close>: the source returns 0 (\<open>if (models.length === 0) return 0\<close>), while
  the stated formula, for which neither zero case applies, gives at least the 40 points
  of the \<open>active\<close> bonus whatever the mean of no entries is taken to be (40 with the
  mean of no entries read as 0).
\<close>

theorem health_score_empty_models_counterexample:
  "calculateHealthScore ((exampleAccount ''a'' True)\<lparr>quota := Some (quotaOf [])\<rparr>) = 0
   \<and> statedHealthScore ((exampleAccount ''a'' True)\<lparr>quota := Some (quotaOf [])\<rparr>) = 40"
  by (simp add: calculateHealthScore_def statedHealthScore_def exampleAccount_def quotaOf_def
      avgQuotaPercent_def)

text \<open>
  C8 (amended). The health score is 0 when the quota is absent, when the status is
  \<open>rate_limited\<close> or \<open>error\<close>, or when the quota lists no model; otherwise it is
  \<open>(avgQuotaPercent / 100) * 60\<close>, plus 40 for status \<open>active\<close>, plus 20 for status
  \<open>refreshing\<close>, clamped to the interval from 0 to 100, where \<open>avgQuotaPercent\<close> is the
  arithmetic mean of the percentages of the model entries.
\<close>

theorem health_score_formula:
  "calculateHealthScore a =
     (if quota a = None \<or> status a = ''rate_limited'' \<or> status a = ''error''
         \<or> models (the (quota a)) = [] then 0
      else min 100 (max 0
             (avgQuotaPercent (the (quota a)) / 100 * 60
                + (if status a = ''active'' then 40 else 0)
                + (if status a = ''refreshing'' then 20 else 0))))"
  by (auto simp: calculateHealthScore_def avgQuotaPercent_def foldl_add Let_def comp_def
      split: option.splits)

theorem health_score_formula_witness:
  "calculateHealthScore ((exampleAccount ''a'' True)\<lparr>quota := Some (quotaOf [50, 100])\<rparr>) = 85
   \<and> calculateHealthScore
        ((exampleAccount ''a'' True)\<lparr>status := ''refreshing'', quota := Some (quotaOf [50])\<rparr>) = 50"
  using health_score_formula [of "(exampleAccount ''a'' True)\<lparr>quota := Some (quotaOf [50, 100])\<rparr>"]
    health_score_formula
      [of "(exampleAccount ''a'' True)\<lparr>status := ''refreshing'', quota := Some (quotaOf [50])\<rparr>"]
  by (simp add: exampleAccount_def quotaOf_def avgQuotaPercent_def)

section \<open>Auto-switch\<close>

lemma sort_key_hd_min:
  assumes "sort_key f xs = c # rest" "x \<in> set xs"
  shows "f c \<le> f x"
proof -
  have "sorted (map f (c # rest))"
    using sorted_sort_key [of f xs] assms(1) by simp
  moreover have "x \<in> set (c # rest)"
    using set_sort [of f xs] assms by simp
  ultimately show ?thesis by auto
qed

lemma set_getAccounts [simp]: "set (getAccounts s) = set (accounts s)"
  by (simp add: getAccounts_def)

lemma findBestAccount_Some:
  assumes "findBestAccount s cid cs = Some nxt"
  shows "nxt \<in> set (accounts s) \<and> acc_id nxt \<noteq> cid \<and> status nxt = ''active''
         \<and> calculateHealthScore nxt > cs + 5
         \<and> (\<forall>c \<in> set (accounts s). acc_id c \<noteq> cid \<and> status c = ''active''
               \<longrightarrow> calculateHealthScore c \<le> calculateHealthScore nxt)"
proof -
  define elig where
    "elig = filter (\<lambda>acc. acc_id acc \<noteq> cid \<and> status acc = ''active'') (getAccounts s)"
  define scored where
    "scored = filter (\<lambda>c. snd c > cs + HYSTERESIS_THRESHOLD)
                (map (\<lambda>acc. (acc, calculateHealthScore acc)) elig)"
  from assms obtain c rest
    where srt: "sort_key (\<lambda>c. - snd c) scored = c # rest" and c: "fst c = nxt"
    by (auto simp: findBestAccount_def scored_def elig_def Let_def split: list.splits)
  have "c \<in> set scored"
    using set_sort [of "\<lambda>c. - snd c" scored] unfolding srt by auto
  then have cin: "nxt \<in> set elig" "snd c = calculateHealthScore nxt" "snd c > cs + 5"
    using c by (auto simp: scored_def HYSTERESIS_THRESHOLD_def)
  have best: "calculateHealthScore a \<le> calculateHealthScore nxt" if "a \<in> set elig" for a
  proof (cases "calculateHealthScore a > cs + 5")
    case True
    with that have "(a, calculateHealthScore a) \<in> set scored"
      by (auto simp: scored_def HYSTERESIS_THRESHOLD_def)
    from sort_key_hd_min [OF srt this] cin(2) show ?thesis by simp
  next
    case False
    with cin show ?thesis by simp
  qed
  from cin best show ?thesis by (auto simp: elig_def)
qed

lemma find_Some_set: "find P xs = Some x \<Longrightarrow> x \<in> set xs \<and> P x"
  by (induction xs) (auto split: if_splits)

lemma two_satisfying:
  "x \<in> set xs \<Longrightarrow> y \<in> set xs \<Longrightarrow> x \<noteq> y \<Longrightarrow> P x \<Longrightarrow> P y \<Longrightarrow> 2 \<le> length (filter P xs)"
proof (induction xs)
  case Nil
  then show ?case by simp
next
  case (Cons z zs)
  have pos: "w \<in> set zs \<Longrightarrow> P w \<Longrightarrow> 1 \<le> length (filter P zs)" for w
    by (metis One_nat_def Suc_leI filter_empty_conv length_greater_0_conv)
  show ?case
  proof (cases "x \<in> set zs \<and> y \<in> set zs")
    case True
    with Cons have "2 \<le> length (filter P zs)" by simp
    then show ?thesis by simp
  next
    case False
    with Cons.prems have "(z = x \<and> y \<in> set zs) \<or> (z = y \<and> x \<in> set zs)" by auto
    with Cons.prems pos show ?thesis by fastforce
  qed
qed

lemma switch_only_when_guarded:
  assumes a: "checkAndSwitchIfNeeded s = Some nxt"
  shows "getSetting s ''auto_switch_enabled'' False
     \<and> (\<exists>cur. find is_active (getAccounts s) = Some cur
          \<and> (calculateHealthScore cur < 10 \<or> status cur = ''rate_limited'' \<or> status cur = ''error'')
          \<and> nxt \<in> set (accounts s) \<and> acc_id nxt \<noteq> acc_id cur \<and> status nxt = ''active''
          \<and> calculateHealthScore nxt > calculateHealthScore cur + 5
          \<and> (\<forall>c \<in> set (accounts s). acc_id c \<noteq> acc_id cur \<and> status c = ''active''
                \<longrightarrow> calculateHealthScore c \<le> calculateHealthScore nxt)
          \<and> (activeCount s \<le> 1 \<longrightarrow> \<not> is_active nxt))"
proof -
  from a have en: "getSetting s ''auto_switch_enabled'' False"
    by (auto simp: checkAndSwitchIfNeeded_def split: if_splits)
  from a en obtain cur where cur: "find is_active (getAccounts s) = Some cur"
    and crit: "isCritical cur"
    and fb: "findBestAccount s (acc_id cur) (calculateHealthScore cur) = Some nxt"
    by (auto simp: checkAndSwitchIfNeeded_def split: if_splits option.splits)
  note props = findBestAccount_Some [OF fb]
  from cur have curin: "cur \<in> set (accounts s)" "is_active cur"
    using find_Some_set [of is_active "getAccounts s" cur] by simp_all
  have "\<not> is_active nxt" if le: "activeCount s \<le> 1"
  proof
    assume "is_active nxt"
    with props curin two_satisfying [of nxt "accounts s" cur is_active]
    have "2 \<le> activeCount s" by (auto simp: activeCount_def)
    with le show False by simp
  qed
  with en cur crit props show ?thesis
    unfolding isCritical_def by blast
qed

lemma hysteresis_None:
  assumes "find is_active (getAccounts s) = Some cur"
    and "list_all (\<lambda>c. acc_id c \<noteq> acc_id cur \<and> status c = ''active''
                    \<longrightarrow> calculateHealthScore c \<le> calculateHealthScore cur + 5) (accounts s)"
  shows "checkAndSwitchIfNeeded s = None"
proof (rule ccontr)
  assume "checkAndSwitchIfNeeded s \<noteq> None"
  then obtain nxt where n: "checkAndSwitchIfNeeded s = Some nxt" by auto
  with assms(1) have fb: "findBestAccount s (acc_id cur) (calculateHealthScore cur) = Some nxt"
    by (auto simp: checkAndSwitchIfNeeded_def split: if_splits)
  from findBestAccount_Some [OF fb] assms(2) show False
    by (auto simp: list_all_iff)
qed

text \<open>
  C7. \<open>checkAndSwitchIfNeeded\<close> asks for a switch to \<open>nxt\<close> only if the setting
  \<open>auto_switch_enabled\<close> is true, the active account \<open>cur\<close> is critical (score below 10,
  or status \<open>rate_limited\<close> or \<open>error\<close>), and \<open>nxt\<close> is a stored account other than \<open>cur\<close>
  (not active, under the active-singleton invariant) with status \<open>active\<close>, of the highest
  score among such accounts, whose score is strictly greater than the score of \<open>cur\<close>
  plus 5. In particular, when no account other than \<open>cur\<close> with status \<open>active\<close> scores
  more than the score of \<open>cur\<close> plus 5, no switch is asked for.
\<close>

theorem auto_switch_guard:
  "(checkAndSwitchIfNeeded s = Some nxt \<longrightarrow>
      getSetting s ''auto_switch_enabled'' False
      \<and> (\<exists>cur. find is_active (getAccounts s) = Some cur
           \<and> (calculateHealthScore cur < 10 \<or> status cur = ''rate_limited''
                \<or> status cur = ''error'')
           \<and> nxt \<in> set (accounts s) \<and> acc_id nxt \<noteq> acc_id cur \<and> status nxt = ''active''
           \<and> calculateHealthScore nxt > calculateHealthScore cur + 5
           \<and> (\<forall>c \<in> set (accounts s). acc_id c \<noteq> acc_id cur \<and> status c = ''active''
                 \<longrightarrow> calculateHealthScore c \<le> calculateHealthScore nxt)
           \<and> (activeCount s \<le> 1 \<longrightarrow> \<not> is_active nxt)))
   \<and> (find is_active (getAccounts s) = Some act
        \<and> list_all (\<lambda>c. acc_id c \<noteq> acc_id act \<and> status c = ''active''
                        \<longrightarrow> calculateHealthScore c \<le> calculateHealthScore act + 5) (accounts s)
      \<longrightarrow> checkAndSwitchIfNeeded s = None)"
  using switch_only_when_guarded [of s nxt] hysteresis_None [of s act]
  by blast

theorem auto_switch_guard_witness:
  "checkAndSwitchIfNeeded switchStore
     = Some ((exampleAccount ''b'' False)\<lparr>quota := Some (quotaOf [50, 100]), last_used := 7\<rparr>)
   \<and> getSetting switchStore ''auto_switch_enabled'' False
   \<and> calculateHealthScore
       ((exampleAccount ''b'' False)\<lparr>quota := Some (quotaOf [50, 100]), last_used := 7\<rparr>) = 85
   \<and> calculateHealthScore
       ((exampleAccount ''a'' True)\<lparr>status := ''rate_limited'', quota := Some (quotaOf [10])\<rparr>) = 0
   \<and> activeCount switchStore \<le> 1
   \<and> find is_active (getAccounts hystStore)
       = Some ((exampleAccount ''a'' True)\<lparr>status := ''error'', quota := Some (quotaOf [90])\<rparr>)
   \<and> list_all (\<lambda>c. acc_id c = ''a'' \<or> status c \<noteq> ''active'' \<or> calculateHealthScore c \<le> 5)
       (accounts hystStore)
   \<and> checkAndSwitchIfNeeded hystStore = None"
  using auto_switch_guard
    [of switchStore
        "(exampleAccount ''b'' False)\<lparr>quota := Some (quotaOf [50, 100]), last_used := 7\<rparr>"
        "(exampleAccount ''a'' True)\<lparr>status := ''error'', quota := Some (quotaOf [90])\<rparr>"]
    auto_switch_guard
    [of hystStore
        "(exampleAccount ''b'' False)\<lparr>quota := Some (quotaOf [50, 100]), last_used := 7\<rparr>"
        "(exampleAccount ''a'' True)\<lparr>status := ''error'', quota := Some (quotaOf [90])\<rparr>"]
  by (simp add: checkAndSwitchIfNeeded_def switchStore_def hystStore_def getAccounts_def
      getSetting_def exampleAccount_def isCritical_def calculateHealthScore_def
      findBestAccount_def quotaOf_def HYSTERESIS_THRESHOLD_def activeCount_def)

section \<open>Semantic cache lookup\<close>

lemma foldl_dot:
  "foldl (\<lambda>d (x, y). d + x * y) z ps = z + sum_list (map (\<lambda>(x, y). x * y) ps)" for z :: real
  by (induction ps arbitrary: z) auto

lemma cosineSimilarity_dot:
  "cosineSimilarity a b = (if length a = length b then dot a b else 0)"
  by (simp add: cosineSimilarity_def dot_def foldl_dot)

lemma findSemantic_default:
  "findSemantic q (97 / 100) rows =
     map_option response_text
       (find (\<lambda>row. length q = length (embedding_blob row)
                    \<and> dot q (embedding_blob row) \<ge> 97 / 100) rows)"
  by (induction rows) (simp_all add: cosineSimilarity_dot)

text \<open>
  C9 (as stated, refuted). The table holds a row for the prompt \<open>hello\<close> whose stored
  response is the empty string, and a row of another prompt whose vector is the query
  vector. The exact hit is the empty string, which \<open>if (exactHit)\<close> takes for a miss: the
  lookup goes on to the semantic search and returns the other row's response.
\<close>

theorem cache_exact_hit_counterexample:
  "findExact (\<lambda>s. s) exampleCache ''hello'' = Some ''''
   \<and> statedFindResponse (\<lambda>s. s) exampleEmbedding exampleCache ''hello'' ''tok'' = Some ''''
   \<and> findResponse (\<lambda>s. s) exampleEmbedding exampleCache ''hello'' ''tok'' = Some ''old answer''"
  by (simp add: findResponse_def statedFindResponse_def findExact_def generateHash_def trim_def
      isWhiteSpace_def exampleCache_def exampleEntry_def exampleEmbedding_def
      cosineSimilarity_def dot_def)

text \<open>
  C9 (amended). An exact hit (the hash of the trimmed prompt is in the hash column) whose
  response is not the empty string is returned, whatever the embedding call and the
  stored vectors are. Otherwise, when the query embedding is fetched, the lookup returns
  the response of the first row whose vector has the dimension of the query vector and a
  dot product with it of at least 0.97, unless that response is the empty string; it
  returns \<open>null\<close> when there is no such row or its response is empty. When fetching the
  embedding fails, the semantic step is skipped and the lookup returns \<open>null\<close>.
\<close>

theorem cache_lookup:
  "(findExact sha256 rows prompt = Some r \<and> r \<noteq> [] \<longrightarrow>
      findResponse sha256 fetchEmbedding rows prompt accessToken = Some r)
   \<and> ((findExact sha256 rows prompt = None \<or> findExact sha256 rows prompt = Some [])
        \<and> fetchEmbedding prompt accessToken = Some q \<longrightarrow>
      findResponse sha256 fetchEmbedding rows prompt accessToken =
        nonEmpty (map_option response_text
          (find (\<lambda>row. length q = length (embedding_blob row)
                       \<and> dot q (embedding_blob row) \<ge> 97 / 100) rows)))
   \<and> ((findExact sha256 rows prompt = None \<or> findExact sha256 rows prompt = Some [])
        \<and> fetchEmbedding prompt accessToken = None \<longrightarrow>
      findResponse sha256 fetchEmbedding rows prompt accessToken = None)"
  by (auto simp: findResponse_def Let_def findSemantic_default nonEmpty_def split: option.splits)

theorem cache_lookup_witness:
  "findExact (\<lambda>s. s) exampleCache '' hi '' = Some ''hi there''
   \<and> findResponse (\<lambda>s. s) exampleEmbedding exampleCache '' hi '' ''bad'' = Some ''hi there''
   \<and> findExact (\<lambda>s. s) exampleCache ''hello'' = Some ''''
   \<and> exampleEmbedding ''hello'' ''tok'' = Some [0, 1]
   \<and> findResponse (\<lambda>s. s) exampleEmbedding exampleCache ''hello'' ''tok'' = Some ''old answer''
   \<and> findExact (\<lambda>s. s) exampleCache ''what'' = None
   \<and> exampleEmbedding ''what'' ''bad'' = None
   \<and> findResponse (\<lambda>s. s) exampleEmbedding exampleCache ''what'' ''bad'' = None"
  using cache_lookup
      [of "\<lambda>s. s" exampleCache "'' hi ''" "''hi there''" exampleEmbedding "''bad''" "[0, 1]"]
    cache_lookup
      [of "\<lambda>s. s" exampleCache "''hello''" "''hi there''" exampleEmbedding "''tok''" "[0, 1]"]
    cache_lookup
      [of "\<lambda>s. s" exampleCache "''what''" "''hi there''" exampleEmbedding "''bad''" "[0, 1]"]
  by (simp add: findExact_def generateHash_def trim_def isWhiteSpace_def exampleCache_def
      exampleEntry_def exampleEmbedding_def nonEmpty_def dot_def)

section \<open>Token manager: model filter\<close>

lemmas example_defs =
  cloudWorld_def exampleManager_def exampleData_def exampleEnv_def exampleAccount_def
  exampleToken_def

lemmas manager_defs =
  getNextToken_def ensureLoaded_def loadAccounts_def convertAccountToToken_def orNull_def
  selectToken_def validTokens_def isNotCooldown_def isModelAllowed_def normalizeModel_def
  toLowerCase_def toLowerChar_def stripModelsPrefix_def roundRobin_def getAccounts_def
  getAccount_def updateToken_def startsWith_def refreshIfExpiring_def resolveProjectId_def
  setProjectId_def fallbackProjectId_def localPart_def saveRefreshedToken_def
  saveProjectId_def toRouted_def

lemma list_ex_image: "list_ex (\<lambda>sm. f sm = v) sms = (v \<in> f ` set sms)"
  by (auto simp: list_ex_iff)

text \<open>
  C3 (as stated, refuted). A call with the empty string as requested model: the guard
  \<open>requestedModel && ...\<close> skips the model filter, so the account whose non-empty
  \<open>selected_models\<close> does not contain the (normalised) requested model is a candidate all
  the same.
\<close>

theorem model_filter_empty_request_counterexample:
  "isModelAllowed (Some '''') (exampleData ''c'' ''google'' (Some [''models/GPT-4'']))
   \<and> \<not> statedModelFilter '''' (exampleData ''c'' ''google'' (Some [''models/GPT-4'']))
   \<and> map fst (validTokens (mgr cloudWorld) 1000000 (Some '''')) = [''a'', ''b'', ''c'']"
  by (simp add: example_defs manager_defs statedModelFilter_def)

text \<open>
  C3 (amended). For every \<open>getNextToken\<close> call with a non-empty requested model, the model
  filter passes an account whose \<open>selected_models\<close> is absent or empty, and passes an
  account with a non-empty \<open>selected_models\<close> if and only if the requested model, after
  stripping an optional \<open>models/\<close> prefix and case-folding on both sides, equals some
  element of that list. With the requested model absent or the empty string the filter
  passes every account. The candidates are the map entries that pass the model filter and
  are not in cooldown.
\<close>

theorem model_filter:
  "(rm \<noteq> [] \<longrightarrow> isModelAllowed (Some rm) data = statedModelFilter rm data)
   \<and> isModelAllowed None data
   \<and> isModelAllowed (Some []) data
   \<and> ((accountId, data) \<in> set (validTokens m nowMs requestedModel)
        = ((accountId, data) \<in> set (tokens m) \<and> isNotCooldown m nowMs data
            \<and> isModelAllowed requestedModel data))"
  by (auto simp: isModelAllowed_def statedModelFilter_def validTokens_def list_ex_image
      split: option.splits)

theorem model_filter_witness:
  "''gpt-4'' \<noteq> []
   \<and> isModelAllowed (Some ''gpt-4'') (exampleData ''c'' ''google'' (Some [''models/GPT-4'']))
   \<and> statedModelFilter ''gpt-4'' (exampleData ''c'' ''google'' (Some [''models/GPT-4'']))
   \<and> \<not> isModelAllowed (Some ''gpt-5'') (exampleData ''c'' ''google'' (Some [''models/GPT-4'']))
   \<and> (''c'', exampleData ''c'' ''google'' (Some [''models/GPT-4'']))
        \<in> set (validTokens (mgr cloudWorld) 1000000 (Some ''models/gpt-4''))"
  using model_filter [of "''gpt-4''" "exampleData ''c'' ''google'' (Some [''models/GPT-4''])"
      "''c''" "mgr cloudWorld" 1000000 "Some ''models/gpt-4''"]
    model_filter [of "''gpt-5''" "exampleData ''c'' ''google'' (Some [''models/GPT-4''])"
      "''c''" "mgr cloudWorld" 1000000 "Some ''models/gpt-4''"]
  by (simp add: example_defs manager_defs statedModelFilter_def)

section \<open>Token manager: round-robin selection\<close>

lemma refreshIfExpiring_index:
  "currentIndex (fst (snd (refreshIfExpiring e aid td ms))) = currentIndex (fst ms)"
  by (simp add: refreshIfExpiring_def Let_def split: call.splits)

lemma resolveProjectId_index:
  "currentIndex (fst (snd (resolveProjectId e aid td ms))) = currentIndex (fst ms)"
  by (simp add: resolveProjectId_def setProjectId_def Let_def split: call.splits option.splits)

lemma selectToken_roundRobin:
  "noActiveLocal s \<Longrightarrow> validTokens m (now e) rm \<noteq> [] \<Longrightarrow>
     selectToken e rm s m = Some (roundRobin m (validTokens m (now e) rm))"
  by (auto simp: selectToken_def noActiveLocal_def Let_def split: option.splits)

lemma getNextToken_selected:
  assumes "selectToken e rm (db w) (ensureLoaded e w) = Some ((aid, td), m1)"
  shows "getNextToken e rm w =
           (Some (toRouted aid (fst (resolveProjectId e aid (fst (refreshIfExpiring e aid td (m1, db w)))
                                      (snd (refreshIfExpiring e aid td (m1, db w)))))),
            \<lparr>mgr = fst (snd (resolveProjectId e aid (fst (refreshIfExpiring e aid td (m1, db w)))
                                      (snd (refreshIfExpiring e aid td (m1, db w))))),
             db = snd (snd (resolveProjectId e aid (fst (refreshIfExpiring e aid td (m1, db w)))
                                      (snd (refreshIfExpiring e aid td (m1, db w)))))\<rparr>)"
proof -
  from assms have "validTokens (ensureLoaded e w) (now e) rm \<noteq> []"
    by (auto simp: selectToken_def Let_def split: if_splits)
  then have "tokens (ensureLoaded e w) \<noteq> []"
    by (auto simp: validTokens_def)
  with assms show ?thesis
    by (simp add: getNextToken_def Let_def split: prod.splits)
qed

lemma ensureLoaded_index: "currentIndex (ensureLoaded e w) = currentIndex (mgr w)"
  by (simp add: ensureLoaded_def loadAccounts_def)

lemma getNextToken_roundRobin:
  assumes "noActiveLocal (db w)" "validTokens (ensureLoaded e w) (now e) rm \<noteq> []"
  shows "\<exists>r w'. getNextToken e rm w = (Some r, w')
           \<and> r_id r = fst (validTokens (ensureLoaded e w) (now e) rm
                             ! (currentIndex (mgr w)
                                  mod length (validTokens (ensureLoaded e w) (now e) rm)))
           \<and> currentIndex (mgr w') = currentIndex (mgr w) + 1"
proof -
  let ?m0 = "ensureLoaded e w"
  let ?valid = "validTokens ?m0 (now e) rm"
  obtain aid td where sel: "?valid ! (currentIndex (mgr w) mod length ?valid) = (aid, td)"
    by (cases "?valid ! (currentIndex (mgr w) mod length ?valid)") auto
  let ?m1 = "?m0\<lparr>currentIndex := currentIndex (mgr w) + 1\<rparr>"
  have st: "selectToken e rm (db w) ?m0 = Some ((aid, td), ?m1)"
    using selectToken_roundRobin [OF assms] sel by (simp add: roundRobin_def ensureLoaded_index)
  obtain td1 ms1 where r1: "refreshIfExpiring e aid td (?m1, db w) = (td1, ms1)"
    by (cases "refreshIfExpiring e aid td (?m1, db w)") auto
  obtain td2 m2 s2 where r2: "resolveProjectId e aid td1 ms1 = (td2, m2, s2)"
    by (cases "resolveProjectId e aid td1 ms1") auto
  have i1: "currentIndex (fst ms1) = currentIndex (mgr w) + 1"
    using refreshIfExpiring_index [of e aid td "(?m1, db w)"] unfolding r1 by simp
  have i2: "currentIndex m2 = currentIndex (mgr w) + 1"
    using resolveProjectId_index [of e aid td1 ms1] i1 unfolding r2 by simp
  have "getNextToken e rm w = (Some (toRouted aid td2), \<lparr>mgr = m2, db = s2\<rparr>)"
    unfolding getNextToken_selected [OF st] r1 by (simp add: r2)
  with sel i2 show ?thesis by (simp add: toRouted_def)
qed

lemma upt_0_Suc_map: "map f [0..<Suc n] = f 0 # map (\<lambda>k. f (Suc k)) [0..<n]"
  by (simp add: upt_conv_Cons map_Suc_upt [symmetric] del: upt_Suc)

lemma getNextTokens_roundRobin:
  "C \<noteq> [] \<Longrightarrow> stableCandidates C calls w \<Longrightarrow>
     map (map_option r_id) (fst (getNextTokens calls w))
       = map (\<lambda>k. Some (C ! ((currentIndex (mgr w) + k) mod length C))) [0..<length calls]
     \<and> currentIndex (mgr (snd (getNextTokens calls w))) = currentIndex (mgr w) + length calls"
proof (induction calls arbitrary: w)
  case Nil
  then show ?case by simp
next
  case (Cons call calls)
  obtain e rm where call: "call = (e, rm)" by (cases call) auto
  let ?valid = "validTokens (ensureLoaded e w) (now e) rm"
  from Cons.prems call have st: "noActiveLocal (db w)" "map fst ?valid = C"
    and rest: "stableCandidates C calls (snd (getNextToken e rm w))"
    by simp_all
  from st(2) Cons.prems(1) have ne: "?valid \<noteq> []" by auto
  from getNextToken_roundRobin [OF st(1) ne] obtain r w'
    where g: "getNextToken e rm w = (Some r, w')"
      and rid: "r_id r = fst (?valid ! (currentIndex (mgr w) mod length ?valid))"
      and idx: "currentIndex (mgr w') = currentIndex (mgr w) + 1"
    by blast
  have len: "length ?valid = length C" using st(2) by (metis length_map)
  have "currentIndex (mgr w) mod length ?valid < length ?valid" using ne by simp
  then have rid': "r_id r = C ! (currentIndex (mgr w) mod length C)"
    using rid st(2) len by (metis nth_map)
  from rest g have "stableCandidates C calls w'" by simp
  from Cons.IH [OF Cons.prems(1) this] idx
  have ih: "map (map_option r_id) (fst (getNextTokens calls w'))
              = map (\<lambda>k. Some (C ! ((currentIndex (mgr w) + Suc k) mod length C))) [0..<length calls]"
    and ih2: "currentIndex (mgr (snd (getNextTokens calls w'))) = currentIndex (mgr w) + 1 + length calls"
    by simp_all
  obtain rs w2 where gs: "getNextTokens calls w' = (rs, w2)" by (cases "getNextTokens calls w'") auto
  have "map (map_option r_id) (fst (getNextTokens (call # calls) w))
          = Some (C ! ((currentIndex (mgr w) + 0) mod length C))
            # map (\<lambda>k. Some (C ! ((currentIndex (mgr w) + Suc k) mod length C))) [0..<length calls]"
    using call g gs ih rid' by simp
  moreover have "currentIndex (mgr (snd (getNextTokens (call # calls) w)))
                   = currentIndex (mgr w) + length (call # calls)"
    using call g gs ih2 by simp
  ultimately show ?case
    using upt_0_Suc_map [of "\<lambda>k. Some (C ! ((currentIndex (mgr w) + k) mod length C))" "length calls"]
    by simp
qed

lemma rr_cover:
  fixes i j n :: nat
  assumes "j < n"
  shows "\<exists>k<n. (i + k) mod n = j"
proof -
  let ?k = "(j + (n - i mod n)) mod n"
  have "i mod n < n" using assms by simp
  have "(i + ?k) mod n = (i mod n + (j + (n - i mod n))) mod n"
    by (metis mod_add_eq mod_mod_trivial)
  also have "i mod n + (j + (n - i mod n)) = j + n"
    using \<open>i mod n < n\<close> by simp
  also have "(j + n) mod n = j" using assms by simp
  finally have "(i + ?k) mod n = j" .
  moreover have "?k < n" using assms by simp
  ultimately show ?thesis by blast
qed

text \<open>
  C2. Over a sequence of calls during which no active local-provider account is stored
  and the filtered candidate list keeps the ids \<open>C\<close> (non-empty), the call number \<open>k\<close>
  returns the account \<open>C ! ((i + k) mod length C)\<close>, where \<open>i\<close> is the index before the
  first call, and the index has advanced by one per call; hence \<open>length C\<close> consecutive
  calls return every account of \<open>C\<close>.
\<close>

theorem round_robin_covers:
  "C \<noteq> [] \<and> stableCandidates C calls w \<longrightarrow>
     map (map_option r_id) (fst (getNextTokens calls w))
       = map (\<lambda>k. Some (C ! ((currentIndex (mgr w) + k) mod length C))) [0..<length calls]
     \<and> currentIndex (mgr (snd (getNextTokens calls w))) = currentIndex (mgr w) + length calls
     \<and> (length calls = length C \<longrightarrow>
          (\<forall>c \<in> set C. Some c \<in> set (map (map_option r_id) (fst (getNextTokens calls w)))))"
proof
  assume a: "C \<noteq> [] \<and> stableCandidates C calls w"
  note rr = getNextTokens_roundRobin [of C calls w]
  have cover: "Some c \<in> set (map (map_option r_id) (fst (getNextTokens calls w)))"
    if len: "length calls = length C" and c: "c \<in> set C" for c
  proof -
    from c obtain j where j: "j < length C" "C ! j = c" by (auto simp: in_set_conv_nth)
    from rr_cover [OF j(1), of "currentIndex (mgr w)"] obtain k
      where k: "k < length C" "(currentIndex (mgr w) + k) mod length C = j" by blast
    have "Some c \<in> set (map (\<lambda>k. Some (C ! ((currentIndex (mgr w) + k) mod length C))) [0..<length calls])"
      using k j len by (auto simp: image_iff intro!: bexI [of _ k])
    with rr a show ?thesis by simp
  qed
  from rr a cover
  show "map (map_option r_id) (fst (getNextTokens calls w))
       = map (\<lambda>k. Some (C ! ((currentIndex (mgr w) + k) mod length C))) [0..<length calls]
     \<and> currentIndex (mgr (snd (getNextTokens calls w))) = currentIndex (mgr w) + length calls
     \<and> (length calls = length C \<longrightarrow>
          (\<forall>c \<in> set C. Some c \<in> set (map (map_option r_id) (fst (getNextTokens calls w)))))"
    by blast
qed

theorem round_robin_covers_witness:
  "[''a'', ''b'', ''c''] \<noteq> []
   \<and> stableCandidates [''a'', ''b'', ''c'']
        [(exampleEnv 1000000, Some ''gpt-4''), (exampleEnv 1000000, Some ''gpt-4''),
         (exampleEnv 1000000, Some ''gpt-4'')] cloudWorld
   \<and> map (map_option r_id)
        (fst (getNextTokens
               [(exampleEnv 1000000, Some ''gpt-4''), (exampleEnv 1000000, Some ''gpt-4''),
                (exampleEnv 1000000, Some ''gpt-4'')] cloudWorld))
       = [Some ''b'', Some ''c'', Some ''a'']
   \<and> currentIndex (mgr cloudWorld) = 1
   \<and> currentIndex (mgr (snd (getNextTokens
               [(exampleEnv 1000000, Some ''gpt-4''), (exampleEnv 1000000, Some ''gpt-4''),
                (exampleEnv 1000000, Some ''gpt-4'')] cloudWorld))) = 4"
  using round_robin_covers
    [of "[''a'', ''b'', ''c'']"
        "[(exampleEnv 1000000, Some ''gpt-4''), (exampleEnv 1000000, Some ''gpt-4''),
          (exampleEnv 1000000, Some ''gpt-4'')]" cloudWorld]
  by (simp add: example_defs manager_defs noActiveLocal_def)

section \<open>Token manager: pinned local account\<close>

lemma refreshIfExpiring_identity:
  "td_email (fst (refreshIfExpiring e aid td ms)) = td_email td
   \<and> td_provider (fst (refreshIfExpiring e aid td ms)) = td_provider td
   \<and> td_project_id (fst (refreshIfExpiring e aid td ms)) = td_project_id td"
  by (simp add: refreshIfExpiring_def Let_def split: call.splits)

lemma resolveProjectId_identity:
  "td_email (fst (resolveProjectId e aid td ms)) = td_email td
   \<and> td_provider (fst (resolveProjectId e aid td ms)) = td_provider td
   \<and> td_access_token (fst (resolveProjectId e aid td ms)) = td_access_token td
   \<and> td_expires_in (fst (resolveProjectId e aid td ms)) = td_expires_in td
   \<and> td_expiry_timestamp (fst (resolveProjectId e aid td ms)) = td_expiry_timestamp td"
  by (simp add: resolveProjectId_def setProjectId_def Let_def split: call.splits option.splits)

lemma pinned_some:
  assumes act: "find is_active (getAccounts (db w)) = Some a"
    and loc: "startsWith (provider a) ''local-''"
    and mem: "map_of (tokens (ensureLoaded e w)) (acc_id a) = Some data"
    and ne: "validTokens (ensureLoaded e w) (now e) rm \<noteq> []"
  shows "\<exists>r. fst (getNextToken e rm w) = Some r \<and> r_id r = acc_id a
           \<and> r_email r = td_email data \<and> r_provider r = td_provider data
           \<and> currentIndex (mgr (snd (getNextToken e rm w))) = currentIndex (mgr w)"
proof -
  have st: "selectToken e rm (db w) (ensureLoaded e w) = Some ((acc_id a, data), ensureLoaded e w)"
    using act loc mem ne by (simp add: selectToken_def)
  show ?thesis
    unfolding getNextToken_selected [OF st]
    by (simp add: toRouted_def refreshIfExpiring_identity resolveProjectId_identity
        refreshIfExpiring_index resolveProjectId_index ensureLoaded_index)
qed

lemma no_candidates_none:
  "validTokens (ensureLoaded e w) (now e) rm = [] \<Longrightarrow> fst (getNextToken e rm w) = None"
  by (simp add: getNextToken_def selectToken_def Let_def)

text \<open>
  C10 (as stated, refuted). The only account is an active local one, present in the map,
  whose \<open>selected_models\<close> does not contain the requested model: the filtered list is
  empty and \<open>getNextToken\<close> returns \<open>null\<close> before it looks for the pinned account.
\<close>

theorem pinned_local_account_counterexample:
  "find is_active (getAccounts (db localOnlyWorld))
     = Some ((exampleAccount ''l'' True)\<lparr>provider := ''local-ollama''\<rparr>)
   \<and> startsWith ''local-ollama'' ''local-''
   \<and> map_of (tokens (ensureLoaded (exampleEnv 1000000) localOnlyWorld)) ''l''
       = Some (exampleData ''l'' ''local-ollama'' (Some [''llama3'']))
   \<and> fst (getNextToken (exampleEnv 1000000) (Some ''gpt-4'') localOnlyWorld) = None"
  by (simp add: localOnlyWorld_def example_defs manager_defs)

text \<open>
  C10 (amended). If the store holds an active account whose provider starts with
  \<open>local-\<close> and that account is in the in-memory map (reloaded if empty), then, provided
  at least one map entry passes the cooldown and model filters, \<open>getNextToken\<close> returns
  that account, whether or not it passes the filters itself, and leaves the round-robin
  index alone; when no entry passes the filters it returns \<open>null\<close>.
\<close>

theorem pinned_local_account:
  "find is_active (getAccounts (db w)) = Some a \<and> startsWith (provider a) ''local-''
     \<and> map_of (tokens (ensureLoaded e w)) (acc_id a) = Some data \<longrightarrow>
   (validTokens (ensureLoaded e w) (now e) rm \<noteq> [] \<longrightarrow>
      (\<exists>r. fst (getNextToken e rm w) = Some r \<and> r_id r = acc_id a
           \<and> r_email r = td_email data \<and> r_provider r = td_provider data
           \<and> currentIndex (mgr (snd (getNextToken e rm w))) = currentIndex (mgr w)))
   \<and> (validTokens (ensureLoaded e w) (now e) rm = [] \<longrightarrow> fst (getNextToken e rm w) = None)"
  using pinned_some [of w a e data rm] no_candidates_none [of e w rm]
  by blast

theorem pinned_local_account_witness:
  "find is_active (getAccounts (db localWorld))
     = Some ((exampleAccount ''l'' True)\<lparr>provider := ''local-ollama''\<rparr>)
   \<and> startsWith ''local-ollama'' ''local-''
   \<and> map_of (tokens (ensureLoaded (exampleEnv 1000000) localWorld)) ''l''
       = Some (exampleData ''l'' ''local-ollama'' (Some [''llama3'']))
   \<and> \<not> isNotCooldown (mgr localWorld) 1000000 (exampleData ''l'' ''local-ollama'' (Some [''llama3'']))
   \<and> \<not> isModelAllowed (Some ''gpt-4'') (exampleData ''l'' ''local-ollama'' (Some [''llama3'']))
   \<and> map fst (validTokens (ensureLoaded (exampleEnv 1000000) localWorld) 1000000 (Some ''gpt-4''))
       = [''a'']
   \<and> map_option r_id (fst (getNextToken (exampleEnv 1000000) (Some ''gpt-4'') localWorld)) = Some ''l''"
  using pinned_local_account
    [of localWorld "(exampleAccount ''l'' True)\<lparr>provider := ''local-ollama''\<rparr>"
        "exampleEnv 1000000" "exampleData ''l'' ''local-ollama'' (Some [''llama3''])" "Some ''gpt-4''"]
  by (simp add: localWorld_def example_defs manager_defs)

section \<open>Token manager: token refresh\<close>

lemma le_div_iff_int:
  fixes a b k :: int
  assumes "0 < k"
  shows "(b \<le> a div k) = (b * k \<le> a)"
proof
  assume "b \<le> a div k"
  then have "b * k \<le> a div k * k" using assms by (simp add: mult_right_mono)
  also have "a div k * k = a - a mod k" by (simp add: minus_mod_eq_div_mult)
  also have "\<dots> \<le> a" using pos_mod_sign [OF assms, of a] by simp
  finally show "b * k \<le> a" .
next
  assume "b * k \<le> a"
  from zdiv_mono1 [OF this assms] assms show "b \<le> a div k" by simp
qed

lemma expiry_threshold:
  "(nowMs div 1000 \<ge> x - 300) = (x * 1000 - nowMs \<le> 300000)" for nowMs x :: int
  using le_div_iff_int [of 1000 "x - 300" nowMs] by (simp add: algebra_simps)

lemma find_unique:
  "distinct (map f rows) \<Longrightarrow> find (\<lambda>r. f r = i) rows = Some acc \<Longrightarrow> r \<in> set rows \<Longrightarrow> f r = i
     \<Longrightarrow> r = acc"
  by (induction rows) (auto split: if_splits simp: image_iff)

lemma find_None_key:
  "find (\<lambda>r. f r = i) rows = None \<Longrightarrow> r \<in> set rows \<Longrightarrow> f r \<noteq> i"
  by (auto simp: find_None_iff)

lemma acc_id_updateToken_fun:
  "acc_id \<circ> (\<lambda>r. if acc_id r = i then r\<lparr>token := tok\<rparr> else r) = acc_id"
  by (auto simp: fun_eq_iff)

lemma acc_id_updateToken [simp]:
  "map acc_id (accounts (updateToken i tok s)) = map acc_id (accounts s)"
  by (simp add: updateToken_def acc_id_updateToken_fun)

lemma wellFormed_updateToken: "wellFormed (updateToken i tok s) = wellFormed s"
  by (simp add: wellFormed_def)

lemma wellFormed_saveRefreshedToken:
  "wellFormed (saveRefreshedToken aid td s) = wellFormed s"
  by (simp add: saveRefreshedToken_def wellFormed_updateToken split: option.splits)

lemma saveRefreshedToken_rows:
  assumes "row \<in> set (accounts (saveRefreshedToken aid td s))" "acc_id row = aid"
  shows "refreshFields row = (aid, td_access_token td, td_expires_in td, td_expiry_timestamp td)"
proof (cases "getAccount aid s")
  case None
  with assms find_None_key [of acc_id aid "accounts s" row] show ?thesis
    by (simp add: saveRefreshedToken_def getAccount_def)
next
  case (Some acc)
  define T where "T = (token acc)\<lparr>access_token := td_access_token td,
      expires_in := td_expires_in td, expiry_timestamp := td_expiry_timestamp td\<rparr>"
  from assms(1) Some obtain r0 where r0: "r0 \<in> set (accounts s)"
      "row = (if acc_id r0 = aid then r0\<lparr>token := T\<rparr> else r0)"
    by (auto simp: saveRefreshedToken_def updateToken_def T_def)
  show ?thesis
  proof (cases "acc_id r0 = aid")
    case True
    with r0 show ?thesis by (simp add: refreshFields_def T_def)
  next
    case False
    with r0 assms(2) show ?thesis by simp
  qed
qed

lemma saveProjectId_frame:
  assumes "wellFormed s"
  shows "map refreshFields (accounts (saveProjectId aid pid s)) = map refreshFields (accounts s)"
proof (cases "getAccount aid s")
  case None
  then show ?thesis by (simp add: saveProjectId_def)
next
  case (Some acc)
  have "refreshFields (if acc_id r = aid then r\<lparr>token := (token acc)\<lparr>project_id := Some pid\<rparr>\<rparr> else r)
          = refreshFields r" if "r \<in> set (accounts s)" for r
    using find_unique [of acc_id "accounts s" aid acc r] assms Some that
    by (auto simp: refreshFields_def wellFormed_def getAccount_def)
  then show ?thesis
    using Some by (simp add: saveProjectId_def updateToken_def)
qed

lemma resolveProjectId_store:
  "wellFormed (snd ms) \<Longrightarrow>
     map refreshFields (accounts (snd (snd (resolveProjectId e aid td ms))))
       = map refreshFields (accounts (snd ms))"
  by (simp add: resolveProjectId_def setProjectId_def Let_def saveProjectId_frame
      split: call.splits option.splits)

lemma resolveProjectId_entry:
  "map_of (tokens (fst ms)) aid = Some td \<Longrightarrow>
     map_of (tokens (fst (snd (resolveProjectId e aid td ms)))) aid
       = Some (fst (resolveProjectId e aid td ms))"
  by (simp add: resolveProjectId_def setProjectId_def Let_def update_conv'
      split: call.splits option.splits)

lemma refresh_success:
  assumes "td_expiry_timestamp td * 1000 - now e \<le> 300000"
    and "refreshAccessToken e (td_refresh_token td) = Returns nt"
  shows "refreshIfExpiring e aid td (m, s) =
           (td\<lparr>td_access_token := resp_access_token nt, td_expires_in := resp_expires_in nt,
               td_expiry_timestamp := now e div 1000 + resp_expires_in nt\<rparr>,
            m\<lparr>tokens := AList.update aid
                  (td\<lparr>td_access_token := resp_access_token nt, td_expires_in := resp_expires_in nt,
                      td_expiry_timestamp := now e div 1000 + resp_expires_in nt\<rparr>) (tokens m)\<rparr>,
            saveRefreshedToken aid
              (td\<lparr>td_access_token := resp_access_token nt, td_expires_in := resp_expires_in nt,
                  td_expiry_timestamp := now e div 1000 + resp_expires_in nt\<rparr>) s)"
  using assms by (simp add: refreshIfExpiring_def Let_def expiry_threshold)

lemma refresh_unchanged:
  assumes "td_expiry_timestamp td * 1000 - now e \<le> 300000
             \<and> refreshAccessToken e (td_refresh_token td) = Throws
           \<or> td_expiry_timestamp td * 1000 - now e > 300000"
  shows "refreshIfExpiring e aid td ms = (td, ms)"
  using assms by (auto simp: refreshIfExpiring_def Let_def expiry_threshold)

lemma getNextToken_chosen:
  assumes "map_option fst (selectToken e rm (db w) (ensureLoaded e w)) = Some (aid, td)"
  shows "\<exists>m1. getNextToken e rm w =
           (Some (toRouted aid (fst (resolveProjectId e aid (fst (refreshIfExpiring e aid td (m1, db w)))
                                      (snd (refreshIfExpiring e aid td (m1, db w)))))),
            \<lparr>mgr = fst (snd (resolveProjectId e aid (fst (refreshIfExpiring e aid td (m1, db w)))
                                      (snd (refreshIfExpiring e aid td (m1, db w))))),
             db = snd (snd (resolveProjectId e aid (fst (refreshIfExpiring e aid td (m1, db w)))
                                      (snd (refreshIfExpiring e aid td (m1, db w)))))\<rparr>)"
proof -
  from assms obtain m1 where "selectToken e rm (db w) (ensureLoaded e w) = Some ((aid, td), m1)"
    by (cases "selectToken e rm (db w) (ensureLoaded e w)") auto
  from getNextToken_selected [OF this] show ?thesis by blast
qed

lemma refreshed_result:
  assumes sel: "map_option fst (selectToken e rm (db w) (ensureLoaded e w)) = Some (aid, td)"
    and wf: "wellFormed (db w)"
    and exp: "td_expiry_timestamp td * 1000 - now e \<le> 300000"
    and ok: "refreshAccessToken e (td_refresh_token td) = Returns nt"
  shows "\<exists>r. fst (getNextToken e rm w) = Some r
           \<and> r_access_token r = resp_access_token nt \<and> r_expires_in r = resp_expires_in nt
           \<and> r_expiry_timestamp r = now e div 1000 + resp_expires_in nt
           \<and> map_option (toRouted aid) (map_of (tokens (mgr (snd (getNextToken e rm w)))) aid) = Some r
           \<and> (\<forall>row \<in> set (accounts (db (snd (getNextToken e rm w)))). acc_id row = aid \<longrightarrow>
                 refreshFields row = (aid, resp_access_token nt, resp_expires_in nt,
                                      now e div 1000 + resp_expires_in nt))"
proof -
  from getNextToken_chosen [OF sel] obtain m1 where g: "getNextToken e rm w =
           (Some (toRouted aid (fst (resolveProjectId e aid (fst (refreshIfExpiring e aid td (m1, db w)))
                                      (snd (refreshIfExpiring e aid td (m1, db w)))))),
            \<lparr>mgr = fst (snd (resolveProjectId e aid (fst (refreshIfExpiring e aid td (m1, db w)))
                                      (snd (refreshIfExpiring e aid td (m1, db w))))),
             db = snd (snd (resolveProjectId e aid (fst (refreshIfExpiring e aid td (m1, db w)))
                                      (snd (refreshIfExpiring e aid td (m1, db w)))))\<rparr>)"
    by blast
  define td1 where "td1 = td\<lparr>td_access_token := resp_access_token nt, td_expires_in := resp_expires_in nt,
               td_expiry_timestamp := now e div 1000 + resp_expires_in nt\<rparr>"
  define ms1 where "ms1 = (m1\<lparr>tokens := AList.update aid td1 (tokens m1)\<rparr>, saveRefreshedToken aid td1 (db w))"
  have r: "refreshIfExpiring e aid td (m1, db w) = (td1, ms1)"
    using refresh_success [OF exp ok, of aid m1 "db w"] by (simp add: td1_def ms1_def)
  define td2 where "td2 = fst (resolveProjectId e aid td1 ms1)"
  have g': "getNextToken e rm w = (Some (toRouted aid td2),
       \<lparr>mgr = fst (snd (resolveProjectId e aid td1 ms1)), db = snd (snd (resolveProjectId e aid td1 ms1))\<rparr>)"
    using g unfolding r td2_def by simp
  have f: "td_access_token td2 = resp_access_token nt" "td_expires_in td2 = resp_expires_in nt"
      "td_expiry_timestamp td2 = now e div 1000 + resp_expires_in nt"
    using resolveProjectId_identity [of e aid td1 ms1] by (simp_all add: td2_def td1_def)
  have "map_of (tokens (fst ms1)) aid = Some td1" by (simp add: ms1_def update_conv')
  from resolveProjectId_entry [OF this, of e]
  have entry: "map_of (tokens (fst (snd (resolveProjectId e aid td1 ms1)))) aid = Some td2"
    by (simp add: td2_def)
  have wf1: "wellFormed (snd ms1)" using wf by (simp add: ms1_def wellFormed_saveRefreshedToken)
  have rows: "refreshFields row = (aid, resp_access_token nt, resp_expires_in nt,
                                      now e div 1000 + resp_expires_in nt)"
    if "row \<in> set (accounts (snd (snd (resolveProjectId e aid td1 ms1))))" "acc_id row = aid" for row
  proof -
    from that(1) have "refreshFields row \<in> set (map refreshFields (accounts (snd ms1)))"
      using resolveProjectId_store [OF wf1, of e aid td1] by (metis image_eqI list.set_map)
    then obtain row1 where r1: "row1 \<in> set (accounts (snd ms1))" "refreshFields row1 = refreshFields row"
      by auto
    with that(2) have "acc_id row1 = aid" by (simp add: refreshFields_def)
    from saveRefreshedToken_rows [of row1 aid td1 "db w"] r1 this show ?thesis
      by (simp add: ms1_def td1_def)
  qed
  show ?thesis
    unfolding g' using f entry rows by (simp add: toRouted_def)
qed

lemma unchanged_result:
  assumes sel: "map_option fst (selectToken e rm (db w) (ensureLoaded e w)) = Some (aid, td)"
    and wf: "wellFormed (db w)"
    and un: "td_expiry_timestamp td * 1000 - now e \<le> 300000
               \<and> refreshAccessToken e (td_refresh_token td) = Throws
             \<or> td_expiry_timestamp td * 1000 - now e > 300000"
  shows "\<exists>r. fst (getNextToken e rm w) = Some r
           \<and> r_access_token r = td_access_token td \<and> r_expires_in r = td_expires_in td
           \<and> r_expiry_timestamp r = td_expiry_timestamp td
           \<and> map refreshFields (accounts (db (snd (getNextToken e rm w))))
               = map refreshFields (accounts (db w))"
proof -
  from getNextToken_chosen [OF sel] obtain m1 where g: "getNextToken e rm w =
           (Some (toRouted aid (fst (resolveProjectId e aid (fst (refreshIfExpiring e aid td (m1, db w)))
                                      (snd (refreshIfExpiring e aid td (m1, db w)))))),
            \<lparr>mgr = fst (snd (resolveProjectId e aid (fst (refreshIfExpiring e aid td (m1, db w)))
                                      (snd (refreshIfExpiring e aid td (m1, db w))))),
             db = snd (snd (resolveProjectId e aid (fst (refreshIfExpiring e aid td (m1, db w)))
                                      (snd (refreshIfExpiring e aid td (m1, db w)))))\<rparr>)"
    by blast
  have r: "refreshIfExpiring e aid td (m1, db w) = (td, (m1, db w))"
    by (rule refresh_unchanged [OF un])
  show ?thesis
    unfolding g r
    using resolveProjectId_identity [of e aid td "(m1, db w)"]
      resolveProjectId_store [of "(m1, db w)" e aid td] wf
    by (simp add: toRouted_def)
qed

lemma token_refresh_cases:
  assumes h: "map_option fst (selectToken e rm (db w) (ensureLoaded e w)) = Some (aid, td)"
      "wellFormed (db w)"
  shows "\<exists>r. fst (getNextToken e rm w) = Some r
      \<and> (td_expiry_timestamp td * 1000 - now e < 300000
           \<and> refreshAccessToken e (td_refresh_token td) = Returns nt \<longrightarrow>
         r_access_token r = resp_access_token nt \<and> r_expires_in r = resp_expires_in nt
         \<and> r_expiry_timestamp r = now e div 1000 + resp_expires_in nt
         \<and> map_option (toRouted aid) (map_of (tokens (mgr (snd (getNextToken e rm w)))) aid) = Some r
         \<and> (\<forall>row \<in> set (accounts (db (snd (getNextToken e rm w)))). acc_id row = aid \<longrightarrow>
               refreshFields row = (aid, resp_access_token nt, resp_expires_in nt,
                                    now e div 1000 + resp_expires_in nt)))
      \<and> (td_expiry_timestamp td * 1000 - now e < 300000
             \<and> refreshAccessToken e (td_refresh_token td) = Throws
           \<or> td_expiry_timestamp td * 1000 - now e > 300000 \<longrightarrow>
         r_access_token r = td_access_token td \<and> r_expires_in r = td_expires_in td
         \<and> r_expiry_timestamp r = td_expiry_timestamp td
         \<and> map refreshFields (accounts (db (snd (getNextToken e rm w))))
             = map refreshFields (accounts (db w)))"
proof -
  obtain r where r: "fst (getNextToken e rm w) = Some r"
    using getNextToken_chosen [OF h(1)] by auto
  have a: "r_access_token r = resp_access_token nt \<and> r_expires_in r = resp_expires_in nt
         \<and> r_expiry_timestamp r = now e div 1000 + resp_expires_in nt
         \<and> map_option (toRouted aid) (map_of (tokens (mgr (snd (getNextToken e rm w)))) aid) = Some r
         \<and> (\<forall>row \<in> set (accounts (db (snd (getNextToken e rm w)))). acc_id row = aid \<longrightarrow>
               refreshFields row = (aid, resp_access_token nt, resp_expires_in nt,
                                    now e div 1000 + resp_expires_in nt))"
    if "td_expiry_timestamp td * 1000 - now e < 300000
           \<and> refreshAccessToken e (td_refresh_token td) = Returns nt"
    using refreshed_result [OF h, of nt] that r by auto
  have b: "r_access_token r = td_access_token td \<and> r_expires_in r = td_expires_in td
         \<and> r_expiry_timestamp r = td_expiry_timestamp td
         \<and> map refreshFields (accounts (db (snd (getNextToken e rm w))))
             = map refreshFields (accounts (db w))"
    if "td_expiry_timestamp td * 1000 - now e < 300000
             \<and> refreshAccessToken e (td_refresh_token td) = Throws
           \<or> td_expiry_timestamp td * 1000 - now e > 300000"
    using unchanged_result [OF h] that r by auto
  from r a b show ?thesis by blast
qed

text \<open>
  C5 (as stated, refuted). The chosen token expires in 200 seconds and the exchange of its
  refresh token fails: the failure is caught, the token is returned as it was and nothing
  is written to the store.
\<close>

theorem token_refresh_failure_counterexample:
  "map_option fst (selectToken (exampleEnv 4800000) None (db cloudWorld) (ensureLoaded (exampleEnv 4800000) cloudWorld))
     = Some (''b'', exampleData ''b'' ''google'' (Some []))
   \<and> td_expiry_timestamp (exampleData ''b'' ''google'' (Some [])) * 1000 - now (exampleEnv 4800000) = 200000
   \<and> refreshAccessToken (exampleEnv 4800000) (td_refresh_token (exampleData ''b'' ''google'' (Some []))) = Throws
   \<and> map_option r_access_token (fst (getNextToken (exampleEnv 4800000) None cloudWorld)) = Some ''at-b''
   \<and> map_option r_expiry_timestamp (fst (getNextToken (exampleEnv 4800000) None cloudWorld)) = Some 5000
   \<and> accounts (db (snd (getNextToken (exampleEnv 4800000) None cloudWorld))) = accounts (db cloudWorld)"
  by (simp add: example_defs manager_defs)

text \<open>
  C5 (amended). Let \<open>td\<close> be the token chosen by a \<open>getNextToken\<close> call at clock reading
  \<open>now\<close> (milliseconds), on a store with distinct ids. If the token expires in less than
  300 seconds and the exchange of its refresh token succeeds, the returned account and
  the map entry carry the new \<open>access_token\<close> and \<open>expires_in\<close> and
  \<open>expiry_timestamp = floor(now / 1000) + expires_in\<close>, and so does the token of the
  account's row in the store, if it has one. If the token expires in less than 300
  seconds and the exchange fails, or if it expires in more than 300 seconds, the access
  token, \<open>expires_in\<close> and \<open>expiry_timestamp\<close> are returned unchanged and no row's are
  rewritten. (A token that expires in exactly 300 seconds is not covered.)
\<close>

theorem token_refresh:
  "map_option fst (selectToken e rm (db w) (ensureLoaded e w)) = Some (aid, td)
     \<and> wellFormed (db w) \<longrightarrow>
   (\<exists>r. fst (getNextToken e rm w) = Some r
      \<and> (td_expiry_timestamp td * 1000 - now e < 300000
           \<and> refreshAccessToken e (td_refresh_token td) = Returns nt \<longrightarrow>
         r_access_token r = resp_access_token nt \<and> r_expires_in r = resp_expires_in nt
         \<and> r_expiry_timestamp r = now e div 1000 + resp_expires_in nt
         \<and> map_option (toRouted aid) (map_of (tokens (mgr (snd (getNextToken e rm w)))) aid) = Some r
         \<and> (\<forall>row \<in> set (accounts (db (snd (getNextToken e rm w)))). acc_id row = aid \<longrightarrow>
               refreshFields row = (aid, resp_access_token nt, resp_expires_in nt,
                                    now e div 1000 + resp_expires_in nt)))
      \<and> (td_expiry_timestamp td * 1000 - now e < 300000
             \<and> refreshAccessToken e (td_refresh_token td) = Throws
           \<or> td_expiry_timestamp td * 1000 - now e > 300000 \<longrightarrow>
         r_access_token r = td_access_token td \<and> r_expires_in r = td_expires_in td
         \<and> r_expiry_timestamp r = td_expiry_timestamp td
         \<and> map refreshFields (accounts (db (snd (getNextToken e rm w))))
             = map refreshFields (accounts (db w))))"
  using token_refresh_cases [of e rm w aid td nt] by blast

theorem token_refresh_witness:
  "map_option fst (selectToken (exampleEnv 4800000) None (db freshWorld)
         (ensureLoaded (exampleEnv 4800000) freshWorld))
       = Some (''a'', (exampleData ''a'' ''google'' None)\<lparr>td_project_id := None\<rparr>)
   \<and> wellFormed (db freshWorld)
   \<and> td_expiry_timestamp (exampleData ''a'' ''google'' None) * 1000 - now (exampleEnv 4800000) < 300000
   \<and> refreshAccessToken (exampleEnv 4800000) ''rt-a''
       = Returns \<lparr>resp_access_token = ''new'', resp_expires_in = 3600\<rparr>
   \<and> map_option r_access_token (fst (getNextToken (exampleEnv 4800000) None freshWorld)) = Some ''new''
   \<and> map_option r_expiry_timestamp (fst (getNextToken (exampleEnv 4800000) None freshWorld)) = Some 8400
   \<and> map refreshFields (accounts (db (snd (getNextToken (exampleEnv 4800000) None freshWorld))))
       = [(''a'', ''new'', 3600, 8400), (''b'', ''at-b'', 3600, 5000)]
   \<and> td_expiry_timestamp (exampleData ''a'' ''google'' None) * 1000 - now (exampleEnv 1000000) > 300000
   \<and> map_option r_access_token (fst (getNextToken (exampleEnv 1000000) None freshWorld)) = Some ''at-a''
   \<and> map refreshFields (accounts (db (snd (getNextToken (exampleEnv 1000000) None freshWorld))))
       = map refreshFields (accounts (db freshWorld))"
  using token_refresh
    [of "exampleEnv 4800000" None freshWorld "''a''"
        "(exampleData ''a'' ''google'' None)\<lparr>td_project_id := None\<rparr>"
        "\<lparr>resp_access_token = ''new'', resp_expires_in = 3600\<rparr>"]
    token_refresh
    [of "exampleEnv 1000000" None freshWorld "''a''"
        "(exampleData ''a'' ''google'' None)\<lparr>td_project_id := None\<rparr>"
        "\<lparr>resp_access_token = ''new'', resp_expires_in = 3600\<rparr>"]
  by (simp add: freshWorld_def example_defs manager_defs wellFormed_def refreshFields_def Let_def)

section \<open>Token manager: project id\<close>

text \<open>
  C6 (the code at the failing input). The map is empty and is loaded from a store of two
  Google accounts without project id. For the first account \<open>fetchProjectId\<close> returns
  \<open>null\<close>: the returned account and the map entry carry the fallback
  \<open>cloud-code-a\<close>, and the store still holds no project id for it. For the second account
  the discovery succeeds and the discovered id is in the store afterwards.
\<close>

theorem fallback_project_id_not_persisted:
  "map_option r_project_id (fst (getNextToken (exampleEnv 1000000) None freshWorld))
     = Some (Some ''cloud-code-a'')
   \<and> map (\<lambda>(k, d). (k, td_project_id d))
        (tokens (mgr (snd (getNextToken (exampleEnv 1000000) None freshWorld))))
       = [(''a'', Some ''cloud-code-a''), (''b'', None)]
   \<and> map (\<lambda>row. (acc_id row, project_id (token row)))
        (accounts (db (snd (getNextToken (exampleEnv 1000000) None freshWorld))))
       = [(''a'', None), (''b'', None)]
   \<and> map (map_option r_project_id)
        (fst (getNextTokens [(exampleEnv 1000000, None), (exampleEnv 1000000, None)] freshWorld))
       = [Some (Some ''cloud-code-a''), Some (Some ''real-project'')]
   \<and> map (\<lambda>row. (acc_id row, project_id (token row)))
        (accounts (db (snd (getNextTokens [(exampleEnv 1000000, None), (exampleEnv 1000000, None)]
                              freshWorld))))
       = [(''a'', None), (''b'', Some ''real-project'')]"
  by (simp add: freshWorld_def example_defs manager_defs Let_def)

section \<open>Proxy retry loop\<close>

lemma retryLoop_dispatches:
  "length (snd (snd (retryLoop att rows req i le w))) \<le> maxRetries - i"
proof (induction att rows req i le w rule: retryLoop.induct)
  case (1 att rows req i lastError w)
  show ?case
  proof (cases "i < maxRetries")
    case False
    then show ?thesis by (subst retryLoop.simps) simp
  next
    case True
    obtain r w1 where g: "getNextToken (att_env (att i)) (Some (req_model req)) w = (r, w1)"
      by (cases "getNextToken (att_env (att i)) (Some (req_model req)) w") auto
    show ?thesis
    proof (cases r)
      case None
      with True g show ?thesis by (subst retryLoop.simps) simp
    next
      case (Some tk)
      show ?thesis
      proof (cases "startsWith (r_provider tk) ''local-''")
        case True
        with \<open>i < maxRetries\<close> g Some show ?thesis
          by (subst retryLoop.simps) (simp split: upstream.splits)
      next
        case nl: False
        show ?thesis
        proof (cases "findResponse (cacheHash (att i)) (cacheEmbedding (att i)) rows
                       (req_prompt req) (r_access_token tk)")
          case (Some c)
          with \<open>i < maxRetries\<close> g \<open>r = Some tk\<close> nl show ?thesis
            by (subst retryLoop.simps) simp
        next
          case miss: None
          show ?thesis
          proof (cases "dispatch (att i) tk")
            case (Ok x)
            with \<open>i < maxRetries\<close> g \<open>r = Some tk\<close> nl miss show ?thesis
              by (subst retryLoop.simps) simp
          next
            case (Fails msg)
            have ih: "length (snd (snd (retryLoop att rows req (Suc i) (Some msg)
                         (catchDispatchError (att i) tk msg w1)))) \<le> maxRetries - Suc i"
              using "1.IH" [OF \<open>i < maxRetries\<close> g [symmetric] \<open>r = Some tk\<close> nl miss Fails]
              by simp
            with \<open>i < maxRetries\<close> g \<open>r = Some tk\<close> nl miss Fails show ?thesis
              by (subst retryLoop.simps) (auto split: prod.splits)
          qed
        qed
      qed
    qed
  qed
qed

lemma retryLoop_failure_step:
  assumes "i < 3"
    and "fst (getNextToken (att_env (att i)) (Some (req_model req)) w) = Some tk"
    and "\<not> startsWith (r_provider tk) ''local-''"
    and "findResponse (cacheHash (att i)) (cacheEmbedding (att i)) rows (req_prompt req)
           (r_access_token tk) = None"
    and "dispatch (att i) tk = Fails msg"
  shows "retryLoop att rows req i lastError w
           = (case retryLoop att rows req (Suc i) (Some msg)
                     (catchDispatchError (att i) tk msg
                        (snd (getNextToken (att_env (att i)) (Some (req_model req)) w))) of
                (h, w', ds) \<Rightarrow> (h, w', r_email tk # ds))"
proof -
  obtain r w1 where g: "getNextToken (att_env (att i)) (Some (req_model req)) w = (r, w1)"
    by (cases "getNextToken (att_env (att i)) (Some (req_model req)) w") auto
  with assms(2) have r: "r = Some tk" by simp
  show ?thesis
    using assms(1,3,4,5) g r
    by (subst retryLoop.simps) (simp add: maxRetries_def)
qed

lemma retryLoop_exhausted:
  "3 \<le> i \<Longrightarrow> retryLoop att rows req i (Some msg) w = (Failed msg, w, [])"
  by (subst retryLoop.simps) (simp add: maxRetries_def)

lemmas example_defs2 = example_defs exampleAttempt_def exampleRequest_def exampleCache_def exampleEntry_def
lemmas proxy_defs = handleChatCompletions_def handleAnthropicMessages_def maxRetries_def
  catchDispatchError_def markAsRateLimited_def shouldRetry_def findResponse_def findExact_def
  generateHash_def trim_def isWhiteSpace_def

text \<open>
  C4 (as stated, refuted). The first dispatch fails with \<open>Bad Gateway\<close>, which does not
  match the pattern. The \<open>catch\<close> block records the error and falls through to the next
  iteration: the second attempt is dispatched with the next account and its reply is
  returned, in both handlers. The error is neither final nor surfaced.
\<close>

theorem retry_loop_other_error_counterexample:
  "\<not> shouldRetry ''Bad Gateway''
   \<and> statedAfterFailure ''Bad Gateway'' = Some (Failed ''Bad Gateway'')
   \<and> fst (handleChatCompletions (exampleAttempt [''Bad Gateway'']) exampleCache exampleRequest
            cloudWorld) = Replied (UpstreamReply ''done'')
   \<and> snd (snd (handleChatCompletions (exampleAttempt [''Bad Gateway'']) exampleCache exampleRequest
            cloudWorld)) = [''b@example.com'', ''c@example.com'']
   \<and> fst (handleAnthropicMessages (exampleAttempt [''Bad Gateway'']) exampleCache exampleRequest
            cloudWorld) = Replied (UpstreamReply ''done'')
   \<and> snd (snd (handleAnthropicMessages (exampleAttempt [''Bad Gateway'']) exampleCache
            exampleRequest cloudWorld)) = [''b@example.com'', ''c@example.com'']"
  by (simp add: example_defs2 manager_defs proxy_defs statedAfterFailure_def retryLoop.simps Let_def)

text \<open>
  C4 (amended). In both handlers upstream dispatch is attempted at most 3 times. When the
  dispatch of attempt \<open>i\<close> fails, the loop goes on with attempt \<open>i + 1\<close> whatever the
  error is, with that error as the last error: if its message matches the pattern, the
  selected account's e-mail is first put in cooldown until 5 minutes after the clock
  reading; if not, the token manager is left as the selection left it. When the dispatch
  of the third attempt fails, its error is the one thrown.
\<close>

theorem retry_loop:
  "length (snd (snd (handleChatCompletions att rows req w))) \<le> 3
   \<and> length (snd (snd (handleAnthropicMessages att rows req w))) \<le> 3
   \<and> (i < 3 \<and> fst (getNextToken (att_env (att i)) (Some (req_model req)) w) = Some tk
        \<and> \<not> startsWith (r_provider tk) ''local-''
        \<and> findResponse (cacheHash (att i)) (cacheEmbedding (att i)) rows (req_prompt req)
             (r_access_token tk) = None
        \<and> dispatch (att i) tk = Fails msg \<longrightarrow>
       retryLoop att rows req i lastError w
         = (case retryLoop att rows req (Suc i) (Some msg)
                   (catchDispatchError (att i) tk msg
                      (snd (getNextToken (att_env (att i)) (Some (req_model req)) w))) of
              (h, w', ds) \<Rightarrow> (h, w', r_email tk # ds))
       \<and> (shouldRetry msg \<longrightarrow>
            cooldowns (mgr (catchDispatchError (att i) tk msg
                        (snd (getNextToken (att_env (att i)) (Some (req_model req)) w))))
              (r_email tk) = Some (markNow (att i) + 300000))
       \<and> (\<not> shouldRetry msg \<longrightarrow>
            catchDispatchError (att i) tk msg
                (snd (getNextToken (att_env (att i)) (Some (req_model req)) w))
              = snd (getNextToken (att_env (att i)) (Some (req_model req)) w))
       \<and> (i = 2 \<longrightarrow> fst (retryLoop att rows req i lastError w) = Failed msg))"
proof -
  have d: "length (snd (snd (retryLoop att rows req 0 None w))) \<le> 3"
    using retryLoop_dispatches [of att rows req 0 None w] by (simp add: maxRetries_def)
  have last: "fst (retryLoop att rows req i lastError w) = Failed msg"
    if "i < 3" "fst (getNextToken (att_env (att i)) (Some (req_model req)) w) = Some tk"
       "\<not> startsWith (r_provider tk) ''local-''"
       "findResponse (cacheHash (att i)) (cacheEmbedding (att i)) rows (req_prompt req)
             (r_access_token tk) = None"
       "dispatch (att i) tk = Fails msg" "i = 2"
  proof -
    have "3 \<le> Suc i" using that(6) by simp
    from retryLoop_exhausted [OF this]
    show ?thesis
      unfolding retryLoop_failure_step [of i att req w tk rows msg lastError, OF that(1-5)]
      by simp
  qed
  show ?thesis
    using d retryLoop_failure_step [of i att req w tk rows msg lastError] last
    by (auto simp: handleChatCompletions_def handleAnthropicMessages_def catchDispatchError_def
        markAsRateLimited_def)
qed

theorem retry_loop_witness:
  "(2::nat) < 3
   \<and> fst (getNextToken (att_env (exampleAttempt [''Bad Gateway'', ''Quota exceeded'', ''HTTP 429''] 2))
            (Some (req_model exampleRequest)) cloudWorld)
       = Some (toRouted ''b'' (exampleData ''b'' ''google'' (Some [])))
   \<and> \<not> startsWith (r_provider (toRouted ''b'' (exampleData ''b'' ''google'' (Some [])))) ''local-''
   \<and> findResponse (cacheHash (exampleAttempt [''Bad Gateway'', ''Quota exceeded'', ''HTTP 429''] 2))
        (cacheEmbedding (exampleAttempt [''Bad Gateway'', ''Quota exceeded'', ''HTTP 429''] 2))
        exampleCache (req_prompt exampleRequest)
        (r_access_token (toRouted ''b'' (exampleData ''b'' ''google'' (Some [])))) = None
   \<and> dispatch (exampleAttempt [''Bad Gateway'', ''Quota exceeded'', ''HTTP 429''] 2)
        (toRouted ''b'' (exampleData ''b'' ''google'' (Some []))) = Fails ''HTTP 429''
   \<and> shouldRetry ''HTTP 429''
   \<and> fst (retryLoop (exampleAttempt [''Bad Gateway'', ''Quota exceeded'', ''HTTP 429''])
            exampleCache exampleRequest 2 None cloudWorld) = Failed ''HTTP 429''
   \<and> cooldowns
        (mgr (catchDispatchError (exampleAttempt [''Bad Gateway'', ''Quota exceeded'', ''HTTP 429''] 2)
                (toRouted ''b'' (exampleData ''b'' ''google'' (Some []))) ''HTTP 429''
                (snd (getNextToken
                        (att_env (exampleAttempt [''Bad Gateway'', ''Quota exceeded'', ''HTTP 429''] 2))
                        (Some (req_model exampleRequest)) cloudWorld))))
        ''b@example.com'' = Some 2300002
   \<and> fst (handleChatCompletions (exampleAttempt [''Bad Gateway'', ''Quota exceeded'', ''HTTP 429''])
            exampleCache exampleRequest cloudWorld) = Failed ''HTTP 429''
   \<and> snd (snd (handleChatCompletions
                  (exampleAttempt [''Bad Gateway'', ''Quota exceeded'', ''HTTP 429''])
                  exampleCache exampleRequest cloudWorld))
       = [''b@example.com'', ''c@example.com'', ''b@example.com'']"
  using retry_loop
    [of "exampleAttempt [''Bad Gateway'', ''Quota exceeded'', ''HTTP 429'']" exampleCache
        exampleRequest cloudWorld 2 "toRouted ''b'' (exampleData ''b'' ''google'' (Some []))"
        "''HTTP 429''" None]
  by (simp add: example_defs2 manager_defs proxy_defs retryLoop.simps Let_def mod_Suc)

end
